theory Spec2Isabelle
  imports Complex_Main "HOL-Library.Multiset" "HOL-Library.Sublist"
begin

section \<open>Markup nodes of the host pipeline\<close>

text \<open>
  The item matrix emits docutils nodes. An element has a tag, the raw source string it
  was created with, attributes (a dictionary from names to values) and children; a text
  node holds a string. Attributes that docutils initialises to an empty list
  (\<open>classes\<close>, \<open>ids\<close>) are listed only once something is stored in them.
\<close>

datatype tag =
  Container | Admonition | Title | Table | TGroup | ColSpec | THead | TBody | Row | Entry
  | Paragraph | Reference | Emphasis | Inline | Target

datatype attr = AStr string | AStrs "string list" | ANum int

datatype docnode =
  Text string
  | Element (tagname: tag) (rawsource: string) (attributes: "(string \<times> attr) list")
      (children: "docnode list")

text \<open>Exceptions of the Python code that the model keeps as values.\<close>

datatype error = AttributeError | KeyError | IndexError | TypeError | ZeroDivisionError

text \<open>\<open>report_warning(msg, docname, lineno)\<close>: the warnings reported so far are a list.\<close>

record warning =
  message :: string
  w_docname :: string
  w_lineno :: int

text \<open>
  \<open>Element(rawsource, *children, **attributes)\<close> and
  \<open>TextElement(rawsource, text, *children, **attributes)\<close>: a text element gets a leading
  text child when the text is not empty.
\<close>

definition text_element :: "tag \<Rightarrow> string \<Rightarrow> string \<Rightarrow> (string \<times> attr) list \<Rightarrow> docnode" where
  "text_element t raw txt ats = Element t raw ats (if txt = [] then [] else [Text txt])"

text \<open>\<open>node.append(child)\<close> and \<open>node.extend(children)\<close>.\<close>

fun append_child :: "docnode \<Rightarrow> docnode \<Rightarrow> docnode" where
  "append_child (Element t raw ats cs) c = Element t raw ats (cs @ [c])"
| "append_child (Text s) c = Text s"

fun extend_children :: "docnode \<Rightarrow> docnode list \<Rightarrow> docnode" where
  "extend_children (Element t raw ats cs) ds = Element t raw ats (cs @ ds)"
| "extend_children (Text s) ds = Text s"

text \<open>
  \<open>node += other\<close> (\<open>Element.__iadd__\<close>): a node is appended, and \<open>None\<close> leaves the
  element as it is.
\<close>

fun iadd :: "docnode \<Rightarrow> docnode option \<Rightarrow> docnode" where
  "iadd n None = n"
| "iadd n (Some c) = append_child n c"

text \<open>\<open>node[key] = value\<close> on the attribute dictionary, and \<open>node['classes'].append(c)\<close>.\<close>

fun dict_set :: "('k \<times> 'v) list \<Rightarrow> 'k \<Rightarrow> 'v \<Rightarrow> ('k \<times> 'v) list" where
  "dict_set [] k v = [(k, v)]"
| "dict_set ((k', v') # kvs) k v = (if k' = k then (k, v) # kvs else (k', v') # dict_set kvs k v)"

fun set_attr :: "docnode \<Rightarrow> string \<Rightarrow> attr \<Rightarrow> docnode" where
  "set_attr (Element t raw ats cs) k v = Element t raw (dict_set ats k v) cs"
| "set_attr (Text s) k v = Text s"

definition classes_of :: "(string \<times> attr) list \<Rightarrow> string list" where
  "classes_of ats = (case map_of ats ''classes'' of Some (AStrs cs) \<Rightarrow> cs | _ \<Rightarrow> [])"

fun extend_classes :: "docnode \<Rightarrow> string list \<Rightarrow> docnode" where
  "extend_classes (Element t raw ats cs) new =
     Element t raw (dict_set ats ''classes'' (AStrs (classes_of ats @ new))) cs"
| "extend_classes (Text s) new = Text s"

fun has_tag :: "tag \<Rightarrow> docnode \<Rightarrow> bool" where
  "has_tag t (Text s) = False"
| "has_tag t (Element t' raw ats cs) = (t' = t \<or> list_ex (has_tag t) cs)"

section \<open>Strings\<close>

text \<open>\<open>str(n)\<close> for a natural number: its decimal digits.\<close>

definition digit_char :: "nat \<Rightarrow> char" where
  "digit_char d = char_of (48 + d)"

function str_nat :: "nat \<Rightarrow> string" where
  "str_nat n = (if n < 10 then [digit_char n] else str_nat (n div 10) @ [digit_char (n mod 10)])"
  by pat_completeness auto
termination
  by (relation "measure id") auto

text \<open>
  \<open>s.replace(old, new)\<close>: every occurrence of \<open>old\<close>, found from the left without overlap,
  becomes \<open>new\<close>; an empty \<open>old\<close> matches before every character and at the end.
\<close>

function str_replace :: "string \<Rightarrow> string \<Rightarrow> string \<Rightarrow> string" where
  "str_replace [] old new = (if old = [] then new else [])"
| "str_replace (c # cs) old new =
     (if old = [] then new @ c # str_replace cs old new
      else if prefix old (c # cs) then new @ str_replace (drop (length old) (c # cs)) old new
      else c # str_replace cs old new)"
  by pat_completeness auto
termination
  by (relation "measure (\<lambda>(s, old, new). length s)") auto

text \<open>\<open>s.split(sep)\<close> for a separator of one character.\<close>

fun str_split :: "char \<Rightarrow> string \<Rightarrow> string list" where
  "str_split sep [] = [[]]"
| "str_split sep (c # cs) =
     (if c = sep then [] # str_split sep cs
      else (case str_split sep cs of w # ws \<Rightarrow> (c # w) # ws | [] \<Rightarrow> [[c]]))"


section \<open>The application: configuration, builder and item collection\<close>

text \<open>
  The host framework and the item collection are not part of the verified code: the model
  takes what they return as fields of records. \<open>targets\<close> is
  \<open>TraceableItem.iter_targets(relation)\<close>, \<open>caption\<close> is empty for an item without caption.
\<close>

record item =
  item_id :: string
  item_docname :: string
  caption :: string
  placeholder :: bool
  targets :: "string \<Rightarrow> string list"

text \<open>
  The queries of \<open>TraceableCollection\<close> that the matrix uses. \<open>get_items\<close> takes the regex
  and the attribute filter (\<open>None\<close> when the argument is left out);
  \<open>get_external_targets\<close> returns a dictionary from external target to item ids, kept in
  its iteration order.
\<close>

record collection =
  items :: "string \<rightharpoonup> item"
  get_items :: "string \<Rightarrow> (string \<times> string) list option \<Rightarrow> string list"
  iter_relations :: "string list"
  are_related :: "string \<Rightarrow> string list \<Rightarrow> string \<Rightarrow> bool"
  get_external_targets :: "string \<Rightarrow> string \<Rightarrow> (string \<times> string list) list"

record config =
  traceability_notifications :: "string \<rightharpoonup> string"
  traceability_hyperlink_colors :: "(string \<times> string list) list"
  traceability_class_names :: "string list \<rightharpoonup> string"
  traceability_external_relationship_to_url :: "string \<rightharpoonup> string"

text \<open>
  \<open>get_relative_uri\<close> is \<open>None\<close> where the builder raises \<open>NoUri\<close>. \<open>re_match\<close>,
  \<open>re_search\<close> and \<open>make_id\<close> are the library functions \<open>re.match\<close>, \<open>re.search\<close> and
  \<open>nodes.make_id\<close>, taken on patterns that compile: the \<open>re.error\<close> of a malformed
  pattern, like an exception inside a query of the collection, is outside the model.
\<close>

record app =
  config :: config
  traceability_collection :: collection
  get_relative_uri :: "string \<Rightarrow> string \<Rightarrow> string option"
  is_latex_builder :: bool
  re_match :: "string \<Rightarrow> string \<Rightarrow> bool"
  re_search :: "string \<Rightarrow> string \<Rightarrow> bool"
  make_id :: "string \<Rightarrow> string"

text \<open>The attributes of an \<open>ItemMatrix\<close> node (\<open>self[...]\<close>); \<open>rel_type\<close> is \<open>self['type']\<close>.\<close>

record item_matrix =
  document :: string
  line :: int
  classes :: "string list"
  title :: string
  source :: string
  filter_attributes :: "(string \<times> string) list"
  target :: "string list"
  targettitle :: "string list"
  sourcetitle :: string
  rel_type :: "string list"
  group :: string
  stats :: bool
  nocaptions :: bool

text \<open>
  Modelled from the spec: \<open>TraceableCollection.get_item\<close> is not among the sources. The
  collection is a lookup wrapper: an id finds its item or nothing, and the absent id
  \<open>None\<close> finds nothing.
\<close>

definition get_item :: "collection \<Rightarrow> string option \<Rightarrow> item option" where
  "get_item c i = (case i of None \<Rightarrow> None | Some k \<Rightarrow> items c k)"

text \<open>
  Modelled from the spec: \<open>is_relation_external\<close> is not among the sources. A relation is
  external when its id matches \<open>REGEXP_EXTERNAL_RELATIONSHIP = '^ext_.*'\<close>, that is, when
  it starts with \<open>ext_\<close>.
\<close>

definition is_relation_external :: "string \<Rightarrow> bool" where
  "is_relation_external rel = prefix ''ext_'' rel"

text \<open>
  Modelled from the spec: \<open>report_warning\<close> is not among the sources. It records the
  message with its location and returns.
\<close>

definition report_warning :: "warning list \<Rightarrow> string \<Rightarrow> string \<Rightarrow> int \<Rightarrow> warning list" where
  "report_warning wlog msg docname lineno =
     wlog @ [\<lparr>message = msg, w_docname = docname, w_lineno = lineno\<rparr>]"

section \<open>References (\<open>traceable_base_node.py\<close>)\<close>

definition EXTERNAL_LINK_FIELDNAME :: string where
  "EXTERNAL_LINK_FIELDNAME = ''field''"

text \<open>The loop of \<open>make_external_item_ref\<close> over the fields of the target text.\<close>

fun replace_fields :: "string \<Rightarrow> nat \<Rightarrow> string list \<Rightarrow> string" where
  "replace_fields url cnt [] = url"
| "replace_fields url cnt (tgt_str # tgt_strs) =
     replace_fields (str_replace url (EXTERNAL_LINK_FIELDNAME @ str_nat (cnt + 1)) tgt_str)
       (cnt + 1) tgt_strs"

definition make_external_item_ref :: "app \<Rightarrow> string \<Rightarrow> string \<Rightarrow> docnode option" where
  "make_external_item_ref ap target_text relationship =
     (case traceability_external_relationship_to_url (config ap) relationship of
        None \<Rightarrow> None
      | Some url0 \<Rightarrow>
          (let p_node = text_element Paragraph [] [] [];
               link = text_element Reference [] [] [];
               txt = Text target_text;
               tgt_strs = str_split CHR '':'' target_text;
               url = replace_fields url0 0 tgt_strs;
               link = append_child (set_attr link ''refuri'' (AStr url)) txt;
               targetid = make_id ap target_text;
               target = text_element Target [] [] [(''ids'', AStrs [targetid])]
           in Some (append_child (append_child p_node target) link)))"

definition find_colors_for_class ::
  "(string \<Rightarrow> string \<Rightarrow> bool) \<Rightarrow> (string \<times> string list) list \<Rightarrow> string \<Rightarrow> string list option" where
  "find_colors_for_class search hyperlink_colors iid =
     map_option snd (find (\<lambda>(regex, colors). search regex iid) hyperlink_colors)"

definition get_caption_info :: "item \<Rightarrow> bool \<Rightarrow> string \<times> docnode option" where
  "get_caption_info item_info show_caption =
     (if caption item_info \<noteq> [] then
        (if show_caption then ('' : '' @ caption item_info, None)
         else ([], Some (extend_classes (text_element Inline [] (caption item_info) [])
                           [''popup_caption''])))
      else ([], None))"

definition has_warned_about_undefined ::
  "item_matrix \<Rightarrow> warning list \<Rightarrow> item \<Rightarrow> bool \<times> warning list" where
  "has_warned_about_undefined self wlog item_info =
     (if placeholder item_info then
        (True, report_warning wlog
           (''Traceability: cannot link to '' @ [CHR 0x27] @ item_id item_info @ [CHR 0x27]
              @ '', item is not defined'')
           (document self) (line self))
      else (False, wlog))"


text \<open>
  \<open>make_internal_item_ref(app, item_id, show_caption)\<close>. The calls on \<open>item_info\<close> raise
  \<open>AttributeError\<close> when the collection has no such item, and the lookup of the class name
  raises \<open>KeyError\<close> when the colours found for the id have none. \<open>NoUri\<close> is caught: the
  reference then has neither \<open>refuri\<close> nor \<open>refdocname\<close>. The environments
  \<open>app.builder.env\<close> and \<open>app.env\<close> are one environment with one collection.
\<close>

definition link_to :: "app \<Rightarrow> item_matrix \<Rightarrow> docnode \<Rightarrow> string \<Rightarrow> string \<Rightarrow> docnode" where
  "link_to ap self newnode docname anchor =
     (case get_relative_uri ap (document self) docname of
        None \<Rightarrow> newnode
      | Some uri \<Rightarrow>
          set_attr (set_attr newnode ''refuri'' (AStr (uri @ ''#'' @ anchor)))
            ''refdocname'' (AStr docname))"

text \<open>Lines 76 to 101: the reference node with its text.\<close>

definition item_reference ::
  "app \<Rightarrow> item_matrix \<Rightarrow> item \<Rightarrow> string option \<Rightarrow> item option \<Rightarrow> string \<Rightarrow> bool
     \<Rightarrow> error + docnode" where
  "item_reference ap self item_info notification_item_id notification_item iid show_caption =
     (let (caption, caption_on_hover) = get_caption_info item_info show_caption;
          newnode = text_element Reference [] [] [];
          innernode = text_element Emphasis (iid @ caption) (iid @ caption) []
      in case (case notification_item of
                 None \<Rightarrow> Inr (link_to ap self newnode (item_docname item_info) iid)
               | Some n_item \<Rightarrow>
                   (case notification_item_id of
                      None \<Rightarrow> Inl TypeError
                    | Some n_id \<Rightarrow> Inr (link_to ap self newnode (item_docname n_item) n_id))) of
           Inl e \<Rightarrow> Inl e
         | Inr newnode \<Rightarrow>
             (let colors = find_colors_for_class (re_search ap)
                             (traceability_hyperlink_colors (config ap)) iid
              in case (case colors of
                         None \<Rightarrow> Inr newnode
                       | Some cs \<Rightarrow>
                           if cs = [] then Inr newnode
                           else (case traceability_class_names (config ap) cs of
                                   None \<Rightarrow> Inl KeyError
                                 | Some class_name \<Rightarrow>
                                     Inr (extend_classes newnode [class_name]))) of
                   Inl e \<Rightarrow> Inl e
                 | Inr newnode \<Rightarrow>
                     (let innernode =
                            (case caption_on_hover of
                               None \<Rightarrow> innernode
                             | Some hover \<Rightarrow>
                                 if is_latex_builder ap then innernode
                                 else append_child
                                        (extend_classes innernode [''has_hidden_caption''])
                                        hover)
                      in Inr (append_child newnode innernode))))"

definition make_internal_item_ref ::
  "app \<Rightarrow> item_matrix \<Rightarrow> warning list \<Rightarrow> string \<Rightarrow> bool \<Rightarrow> error + docnode \<times> warning list" where
  "make_internal_item_ref ap self wlog iid show_caption =
     (case get_item (traceability_collection ap) (Some iid) of
        None \<Rightarrow> Inl AttributeError
      | Some item_info \<Rightarrow>
          (let p_node = text_element Paragraph [] [] [];
               notification_item_id =
                 (if placeholder item_info
                  then traceability_notifications (config ap) ''undefined-reference'' else None);
               notification_item =
                 (if placeholder item_info
                  then get_item (traceability_collection ap) notification_item_id else None)
           in if placeholder item_info \<and> notification_item = None then
                Inr (append_child p_node (Text (iid @ '' not defined, broken link'')),
                     snd (has_warned_about_undefined self wlog item_info))
              else
                (case item_reference ap self item_info notification_item_id notification_item
                        iid show_caption of
                   Inl e \<Rightarrow> Inl e
                 | Inr newnode \<Rightarrow> Inr (append_child p_node newnode, wlog))))"

text \<open>
  \<open>create_top_node(title, app)\<close>; \<open>app\<close> is \<open>None\<close> when the argument is left out. With an
  application the title is the first child of the reference paragraph of the item.
\<close>

definition create_top_node ::
  "item_matrix \<Rightarrow> warning list \<Rightarrow> string \<Rightarrow> app option \<Rightarrow> error + docnode \<times> warning list" where
  "create_top_node self wlog ttl ap_opt =
     (let top_node = Element Container [] [] [];
          admon_node = extend_classes (Element Admonition [] [] []) [''item''];
          title_node = text_element Title [] [] []
      in case (case ap_opt of
                 None \<Rightarrow> Inr (append_child title_node (Text ttl), wlog)
               | Some ap \<Rightarrow>
                   (case make_internal_item_ref ap self wlog ttl (\<not> nocaptions self) of
                      Inl e \<Rightarrow> Inl e
                    | Inr (p, wlog') \<Rightarrow>
                        (case children p of
                           [] \<Rightarrow> Inl IndexError
                         | c # cs \<Rightarrow> Inr (append_child title_node c, wlog')))) of
           Inl e \<Rightarrow> Inl e
         | Inr (title_node, wlog') \<Rightarrow>
             Inr (append_child top_node (append_child admon_node title_node), wlog'))"

section \<open>The item matrix (\<open>item_matrix_directive.py\<close>)\<close>

text \<open>\<open>Rows = namedtuple('Rows', "sorted covered uncovered")\<close>: three lists of row nodes.\<close>

record rows =
  rows_sorted :: "docnode list"
  rows_covered :: "docnode list"
  rows_uncovered :: "docnode list"

definition store_row :: "rows \<Rightarrow> docnode \<Rightarrow> docnode list \<Rightarrow> bool \<Rightarrow> rows" where
  "store_row rs left rights covered =
     (let row = foldl append_child (append_child (Element Row [] [] []) left) rights;
          rs = rs\<lparr>rows_sorted := rows_sorted rs @ [row]\<rparr>
      in if covered then rs\<lparr>rows_covered := rows_covered rs @ [row]\<rparr>
         else rs\<lparr>rows_uncovered := rows_uncovered rs @ [row]\<rparr>)"

text \<open>A \<open>for\<close> loop whose body may raise: the first exception ends the loop.\<close>

fun for_each :: "('a \<Rightarrow> 's \<Rightarrow> error + 's) \<Rightarrow> 'a list \<Rightarrow> 's \<Rightarrow> error + 's" where
  "for_each body [] s = Inr s"
| "for_each body (x # xs) s = (case body x s of Inl e \<Rightarrow> Inl e | Inr s' \<Rightarrow> for_each body xs s')"


text \<open>
  The state of the loops that fill one row: the right-hand entries, the coverage flag and
  the warnings reported so far.
\<close>

type_synonym row_state = "docnode list \<times> bool \<times> warning list"

definition number_of_columns :: "item_matrix \<Rightarrow> nat" where
  "number_of_columns self = max 2 (length (target self) + 1)"

text \<open>
  Lines 60 to 66: the relationships, and the external relationships among them. Without
  explicit relationships all relations of the collection but the external ones are taken.
\<close>

definition relationships_of :: "collection \<Rightarrow> item_matrix \<Rightarrow> string list \<times> string list" where
  "relationships_of coll self =
     (if rel_type self = [] then
        (filter (\<lambda>rel. \<not> is_relation_external rel) (iter_relations coll), [])
      else (rel_type self, filter is_relation_external (rel_type self)))"

text \<open>Lines 68 to 71: a dictionary from each external relationship to its targets.\<close>

definition ext_relations_to_target_map ::
  "collection \<Rightarrow> item_matrix \<Rightarrow> string list \<Rightarrow> (string \<times> (string \<times> string list) list) list" where
  "ext_relations_to_target_map coll self external_relationships =
     foldl (\<lambda>m relation. dict_set m relation (get_external_targets coll (source self) relation))
       [] external_relationships"

text \<open>
  Lines 82 to 86, the body of the loop over the external relationships:
  \<open>source_item.iter_targets\<close> raises when the collection gave no item.
\<close>

definition add_external_refs :: "app \<Rightarrow> item option \<Rightarrow> string \<Rightarrow> row_state \<Rightarrow> error + row_state" where
  "add_external_refs ap source_item ext_relationship st =
     (case source_item of
        None \<Rightarrow> Inl AttributeError
      | Some it \<Rightarrow>
          for_each
            (\<lambda>target_id (rights, covered, wlog).
               Inr (map (\<lambda>right. iadd right (make_external_item_ref ap target_id ext_relationship))
                      rights,
                    True, wlog))
            (targets it ext_relationship) st)"

text \<open>
  \<open>rights[idx] += self.make_internal_item_ref(app, target_id)\<close> followed by
  \<open>covered = True\<close> (lines 90, 91 and 103, 104).
\<close>

definition add_internal_ref ::
  "app \<Rightarrow> item_matrix \<Rightarrow> nat \<Rightarrow> string \<Rightarrow> row_state \<Rightarrow> error + row_state" where
  "add_internal_ref ap self idx target_id st =
     (case st of (rights, covered, wlog) \<Rightarrow>
        if idx < length rights then
          (case make_internal_item_ref ap self wlog target_id True of
             Inl e \<Rightarrow> Inl e
           | Inr (ref, wlog') \<Rightarrow> Inr (rights[idx := append_child (rights ! idx) ref], True, wlog'))
        else Inl IndexError)"

text \<open>Lines 88 to 91, the body of the loop over \<open>enumerate(targets_with_ids)\<close>.\<close>

definition add_related_targets ::
  "app \<Rightarrow> collection \<Rightarrow> item_matrix \<Rightarrow> string \<Rightarrow> string list \<Rightarrow> nat \<times> string list
     \<Rightarrow> row_state \<Rightarrow> error + row_state" where
  "add_related_targets ap coll self source_id relationships =
     (\<lambda>(idx, target_ids).
        for_each
          (\<lambda>target_id st.
             if are_related coll source_id relationships target_id
             then add_internal_ref ap self idx target_id st else Inr st)
          target_ids)"

text \<open>Lines 101 to 104, the body of the loop over \<open>enumerate(self['target'])\<close>.\<close>

definition add_matching_targets ::
  "app \<Rightarrow> item_matrix \<Rightarrow> string list \<Rightarrow> nat \<times> string \<Rightarrow> row_state \<Rightarrow> error + row_state" where
  "add_matching_targets ap self item_ids =
     (\<lambda>(idx, target_regex).
        for_each
          (\<lambda>target_id st.
             if re_match ap target_regex target_id
             then add_internal_ref ap self idx target_id st else Inr st)
          item_ids)"

definition empty_entries :: "item_matrix \<Rightarrow> docnode list" where
  "empty_entries self = replicate (number_of_columns self - 1) (Element Entry [] [] [])"

text \<open>Lines 76 to 92, the body of the loop over the source ids.\<close>

definition source_row ::
  "app \<Rightarrow> collection \<Rightarrow> item_matrix \<Rightarrow> string list \<Rightarrow> string list \<Rightarrow> string list list \<Rightarrow> string
     \<Rightarrow> rows \<times> warning list \<Rightarrow> error + rows \<times> warning list" where
  "source_row ap coll self relationships external_relationships targets_with_ids source_id =
     (\<lambda>(rs, wlog).
        let source_item = get_item coll (Some source_id)
        in case make_internal_item_ref ap self wlog source_id True of
             Inl e \<Rightarrow> Inl e
           | Inr (ref, wlog1) \<Rightarrow>
               (let left = append_child (Element Entry [] [] []) ref;
                    rights = empty_entries self
                in case for_each (add_external_refs ap source_item) external_relationships
                          (rights, False, wlog1) of
                     Inl e \<Rightarrow> Inl e
                   | Inr st \<Rightarrow>
                       (case for_each (add_related_targets ap coll self source_id relationships)
                               (enumerate 0 targets_with_ids) st of
                          Inl e \<Rightarrow> Inl e
                        | Inr (rights, covered, wlog2) \<Rightarrow>
                            Inr (store_row rs left rights covered, wlog2))))"

text \<open>Lines 96 to 106, the body of the loop over the external targets of one relationship.\<close>

definition external_row ::
  "app \<Rightarrow> item_matrix \<Rightarrow> string \<Rightarrow> string \<times> string list
     \<Rightarrow> rows \<times> warning list \<Rightarrow> error + rows \<times> warning list" where
  "external_row ap self ext_rel =
     (\<lambda>(ext_source, item_ids) (rs, wlog).
        let left = iadd (Element Entry [] [] []) (make_external_item_ref ap ext_source ext_rel);
            rights = empty_entries self
        in case for_each (add_matching_targets ap self item_ids) (enumerate 0 (target self))
                  (rights, False, wlog) of
             Inl e \<Rightarrow> Inl e
           | Inr (rights, covered, wlog') \<Rightarrow> Inr (store_row rs left rights covered, wlog'))"

text \<open>Lines 35 to 38 and 60 to 106: the rows of the matrix.\<close>

definition build_rows ::
  "app \<Rightarrow> collection \<Rightarrow> item_matrix \<Rightarrow> warning list \<Rightarrow> error + rows \<times> warning list" where
  "build_rows ap coll self wlog =
     (let source_ids = get_items coll (source self) (Some (filter_attributes self));
          targets_with_ids = map (\<lambda>target_regex. get_items coll target_regex None) (target self);
          (relationships, external_relationships) = relationships_of coll self;
          ext_map = ext_relations_to_target_map coll self external_relationships
      in case for_each
                (source_row ap coll self relationships external_relationships targets_with_ids)
                source_ids
                (\<lparr>rows_sorted = [], rows_covered = [], rows_uncovered = []\<rparr>, wlog) of
           Inl e \<Rightarrow> Inl e
         | Inr st \<Rightarrow>
             for_each
               (\<lambda>(ext_rel, ext_targets_to_item_ids).
                  for_each (external_row ap self ext_rel) ext_targets_to_item_ids)
               ext_map st)"

text \<open>Lines 109 to 116: the rows go into the table body as the \<open>group\<close> option says.\<close>

definition table_body :: "item_matrix \<Rightarrow> rows \<Rightarrow> docnode" where
  "table_body self rs =
     (let tbody = Element TBody [] [] []
      in if group self = [] then extend_children tbody (rows_sorted rs)
         else if group self = ''top'' then
           extend_children (extend_children tbody (rows_uncovered rs)) (rows_covered rs)
         else if group self = ''bottom'' then
           extend_children (extend_children tbody (rows_covered rs)) (rows_uncovered rs)
         else tbody)"

text \<open>
  Lines 40 to 54: the table around the body. The code puts the empty body into the table
  and fills it afterwards; the model builds the same tree from the filled body.
\<close>

definition table_node :: "item_matrix \<Rightarrow> docnode \<Rightarrow> docnode" where
  "table_node self tbody =
     (let table = Element Table [] [] [];
          table = (if classes self \<noteq> [] then extend_classes table (classes self) else table);
          tgroup = Element TGroup [] [] [];
          tgroup = extend_children tgroup
                     (map (\<lambda>_. Element ColSpec [] [(''colwidth'', ANum 5)] [])
                        [0..<number_of_columns self]);
          headings = map (\<lambda>ttl. Element Entry [] [] [text_element Paragraph [] ttl []])
                       (sourcetitle self # targettitle self);
          tgroup = append_child tgroup (Element THead [] [] [Element Row [] [] headings]);
          tgroup = append_child tgroup tbody
      in append_child table tgroup)"

text \<open>
  Lines 118 to 126. Python's \<open>/\<close> on integers raises \<open>ZeroDivisionError\<close> for a zero
  divisor and otherwise gives the quotient as a double, taken here as the exact quotient;
  \<open>int\<close> truncates towards zero.
\<close>

definition true_div :: "int \<Rightarrow> int \<Rightarrow> error + real" where
  "true_div a b = (if b = 0 then Inl ZeroDivisionError else Inr (real_of_int a / real_of_int b))"

definition py_int :: "real \<Rightarrow> int" where
  "py_int x = (if x < 0 then \<lceil>x\<rceil> else \<lfloor>x\<rfloor>)"

definition str_int :: "int \<Rightarrow> string" where
  "str_int i = (if i < 0 then ''-'' @ str_nat (nat (- i)) else str_nat (nat i))"

definition percentage :: "nat \<Rightarrow> nat \<Rightarrow> error + int" where
  "percentage count_covered count_total =
     (case true_div (100 * int count_covered) (int count_total) of
        Inl e \<Rightarrow> (if e = ZeroDivisionError then Inr 0 else Inl e)
      | Inr q \<Rightarrow> Inr (py_int q))"

definition statistics :: "rows \<Rightarrow> error + string" where
  "statistics rs =
     (let count_total = length (rows_sorted rs);
          count_covered = length (rows_covered rs)
      in case percentage count_covered count_total of
           Inl e \<Rightarrow> Inl e
         | Inr pct \<Rightarrow>
             Inr (''Statistics: '' @ str_nat count_covered @ '' out of '' @ str_nat count_total
                    @ '' covered: '' @ str_int pct @ ''%''))"

text \<open>
  \<open>perform_replacement(app, collection)\<close>. The outcome lists the nodes handed to
  \<open>replace_self\<close>, one entry for each call, and the warnings reported.
\<close>

record outcome =
  replaced_by :: "docnode list"
  warnings :: "warning list"

definition perform_replacement ::
  "app \<Rightarrow> collection \<Rightarrow> item_matrix \<Rightarrow> warning list \<Rightarrow> error + outcome" where
  "perform_replacement ap coll self wlog =
     (case create_top_node self wlog (title self) None of
        Inl e \<Rightarrow> Inl e
      | Inr (top_node, wlog0) \<Rightarrow>
          (case build_rows ap coll self wlog0 of
             Inl e \<Rightarrow> Inl e
           | Inr (rs, wlog1) \<Rightarrow>
               (case statistics rs of
                  Inl e \<Rightarrow> Inl e
                | Inr disp \<Rightarrow>
                    (let tbody = table_body self rs;
                         top_node =
                           (if stats self then
                              append_child top_node
                                (append_child (text_element Paragraph [] [] []) (Text disp))
                            else top_node);
                         top_node = append_child top_node (table_node self tbody)
                     in Inr \<lparr>replaced_by = [top_node], warnings = wlog1\<rparr>))))"


text \<open>
  \<open>ItemMatrixDirective.run\<close>. The helpers of \<open>TraceableBaseDirective\<close> are not among the
  sources: what they store in the node (\<open>process_title\<close>, \<open>add_found_attributes\<close>,
  \<open>process_options\<close>, \<open>check_option_presence\<close>, \<open>check_caption_flags\<close>) and what
  \<open>check_relationships\<close> reports are fields of the directive, as is \<open>str\<close> of a list of
  strings, which formats the message.
\<close>

record directive =
  d_docname :: string
  d_lineno :: int
  option_class :: "string list"
  option_group :: "string option"
  processed_title :: string
  found_attributes :: "(string \<times> string) list"
  processed_target :: "string list"
  processed_source :: string
  processed_targettitle :: "string list"
  processed_sourcetitle :: string
  processed_type :: "string list"
  relationship_warnings :: "warning list"
  stats_present :: bool
  nocaptions_flag :: bool
  str_of_list :: "string list \<Rightarrow> string"

definition mismatch_message :: "directive \<Rightarrow> string" where
  "mismatch_message d =
     ''Item-matrix directive should have the same number of '' @ [CHR 0x27] @ ''target''
       @ [CHR 0x27] @ '' attributes as '' @ [CHR 0x27] @ ''target-title'' @ [CHR 0x27]
       @ '' attributes. Got target: '' @ str_of_list d (processed_target d)
       @ '' and targettitle: '' @ str_of_list d (processed_targettitle d)"

definition run :: "directive \<Rightarrow> warning list \<Rightarrow> item_matrix list \<times> warning list" where
  "run d wlog =
     (let item_matrix_node =
            \<lparr>document = d_docname d, line = d_lineno d, classes = option_class d,
             title = processed_title d, source = processed_source d,
             filter_attributes = found_attributes d, target = processed_target d,
             targettitle = processed_targettitle d, sourcetitle = processed_sourcetitle d,
             rel_type = processed_type d,
             group = (case option_group d of None \<Rightarrow> [] | Some g \<Rightarrow> g),
             stats = stats_present d, nocaptions = nocaptions_flag d\<rparr>;
          number_of_targets = length (target item_matrix_node);
          number_of_targettitles = length (targettitle item_matrix_node);
          wlog = (if number_of_targets > 1 \<and> number_of_targets \<noteq> number_of_targettitles
                  then report_warning wlog (mismatch_message d) (d_docname d) (d_lineno d)
                  else wlog);
          wlog = wlog @ relationship_warnings d
      in ([item_matrix_node], wlog))"

section \<open>Notions used to state the properties\<close>

text \<open>The row node that \<open>_store_row\<close> builds from a left entry and the right entries.\<close>

definition row_node :: "docnode \<Rightarrow> docnode list \<Rightarrow> docnode" where
  "row_node left rights = Element Row [] [] (left # rights)"

text \<open>A sequence of \<open>_store_row\<close> calls, each with its left entry, right entries and flag.\<close>

definition store_rows :: "rows \<Rightarrow> (docnode \<times> docnode list \<times> bool) list \<Rightarrow> rows" where
  "store_rows rs calls = foldl (\<lambda>rs (left, rights, covered). store_row rs left rights covered) rs calls"

definition no_rows :: rows where
  "no_rows = \<lparr>rows_sorted = [], rows_covered = [], rows_uncovered = []\<rparr>"

text \<open>Whether a node is a table entry.\<close>

fun is_entry :: "docnode \<Rightarrow> bool" where
  "is_entry (Element t raw ats cs) = (t = Entry)"
| "is_entry (Text s) = False"

text \<open>
  The coverage of a source row as the specification words it: some external relationship has a
  target of the source item, or some item found for a \<open>target\<close> regex is related to the
  source through the relationships.
\<close>

definition source_has_relationship :: "collection \<Rightarrow> item_matrix \<Rightarrow> string \<Rightarrow> bool" where
  "source_has_relationship coll self source_id =
     (list_ex
        (\<lambda>ext_relationship.
           case get_item coll (Some source_id) of
             None \<Rightarrow> False
           | Some it \<Rightarrow> targets it ext_relationship \<noteq> [])
        (snd (relationships_of coll self))
      \<or> list_ex
           (\<lambda>target_regex.
              list_ex (\<lambda>target_id. are_related coll source_id (fst (relationships_of coll self)) target_id)
                (get_items coll target_regex None))
           (target self))"

text \<open>
  The coverage of an external-source row as the specification words it: some returned item id
  matches some \<open>target\<close> regex.
\<close>

definition external_has_target :: "app \<Rightarrow> item_matrix \<Rightarrow> string list \<Rightarrow> bool" where
  "external_has_target ap self item_ids =
     list_ex (\<lambda>target_regex. list_ex (\<lambda>target_id. re_match ap target_regex target_id) item_ids)
       (target self)"

text \<open>
  The external sources in the order in which the rows are built: relationship, external
  target and the item ids returned for it.
\<close>

definition external_sources ::
  "collection \<Rightarrow> item_matrix \<Rightarrow> (string \<times> string \<times> string list) list" where
  "external_sources coll self =
     concat (map (\<lambda>(ext_rel, ext_targets_to_item_ids). map (Pair ext_rel) ext_targets_to_item_ids)
               (ext_relations_to_target_map coll self (snd (relationships_of coll self))))"

definition source_ids_of :: "collection \<Rightarrow> item_matrix \<Rightarrow> string list" where
  "source_ids_of coll self = get_items coll (source self) (Some (filter_attributes self))"

text \<open>The rows in the body of the table that replaces the node.\<close>

definition emitted_table :: "outcome \<Rightarrow> docnode" where
  "emitted_table out = last (children (last (replaced_by out)))"

definition emitted_rows :: "outcome \<Rightarrow> docnode list" where
  "emitted_rows out = children (last (children (last (children (emitted_table out)))))"

text \<open>
  When a reference to an item can be built: the collection knows the id, and either the
  item is an undefined one without notification item, or the colours found for the id
  (if any) have a class name.
\<close>

definition notification_item_of :: "app \<Rightarrow> item option" where
  "notification_item_of ap =
     get_item (traceability_collection ap)
       (traceability_notifications (config ap) ''undefined-reference'')"

definition class_name_known :: "app \<Rightarrow> string \<Rightarrow> bool" where
  "class_name_known ap iid =
     (case find_colors_for_class (re_search ap) (traceability_hyperlink_colors (config ap)) iid of
        None \<Rightarrow> True
      | Some cs \<Rightarrow> cs = [] \<or> traceability_class_names (config ap) cs \<noteq> None)"

definition can_reference :: "app \<Rightarrow> string \<Rightarrow> bool" where
  "can_reference ap iid =
     (case items (traceability_collection ap) iid of
        None \<Rightarrow> False
      | Some it \<Rightarrow> (placeholder it \<and> notification_item_of ap = None) \<or> class_name_known ap iid)"

text \<open>
  The ids that the queries of the collection return for a matrix, and the environments
  in which every one of them is an item that can be referenced.
\<close>

definition referenced_ids :: "collection \<Rightarrow> item_matrix \<Rightarrow> string list" where
  "referenced_ids coll self =
     source_ids_of coll self
       @ concat (map (\<lambda>target_regex. get_items coll target_regex None) (target self))
       @ concat (map (\<lambda>(ext_rel, ext_source, item_ids). item_ids) (external_sources coll self))"

definition references_known :: "app \<Rightarrow> collection \<Rightarrow> item_matrix \<Rightarrow> bool" where
  "references_known ap coll self =
     list_all (\<lambda>iid. can_reference ap iid \<and> items coll iid \<noteq> None) (referenced_ids coll self)"

text \<open>
  The node of the reference to an item, when it can be built, and the calls of
  \<open>_store_row\<close> for a source id and for an external source: the flag, the left entry and
  the shape of the right entries.
\<close>

definition internal_ref :: "app \<Rightarrow> item_matrix \<Rightarrow> string \<Rightarrow> docnode option" where
  "internal_ref ap self iid =
     (case make_internal_item_ref ap self [] iid True of
        Inl e \<Rightarrow> None
      | Inr (ref, wlog) \<Rightarrow> Some ref)"

definition source_call ::
  "app \<Rightarrow> collection \<Rightarrow> item_matrix \<Rightarrow> string \<Rightarrow> docnode \<times> docnode list \<times> bool \<Rightarrow> bool" where
  "source_call ap coll self source_id =
     (\<lambda>(left, rights, covered).
        covered = source_has_relationship coll self source_id
        \<and> (case internal_ref ap self source_id of
             None \<Rightarrow> False
           | Some ref \<Rightarrow> left = Element Entry [] [] [ref])
        \<and> length rights = number_of_columns self - 1
        \<and> list_all is_entry rights)"

definition external_call ::
  "app \<Rightarrow> item_matrix \<Rightarrow> string \<times> string \<times> string list \<Rightarrow> docnode \<times> docnode list \<times> bool \<Rightarrow> bool" where
  "external_call ap self =
     (\<lambda>(ext_rel, ext_source, item_ids) (left, rights, covered).
        covered = external_has_target ap self item_ids
        \<and> left = iadd (Element Entry [] [] []) (make_external_item_ref ap ext_source ext_rel)
        \<and> length rights = number_of_columns self - 1
        \<and> list_all is_entry rights)"

text \<open>The shape of the right entries of a row: their number, and that all are entries.\<close>

definition row_shape :: "nat \<Rightarrow> row_state \<Rightarrow> bool" where
  "row_shape n st = (length (fst st) = n \<and> list_all is_entry (fst st))"

text \<open>The admonition with the title that \<open>create_top_node\<close> builds.\<close>

definition admonition_node :: "string \<Rightarrow> docnode" where
  "admonition_node ttl =
     Element Admonition [] [(''classes'', AStrs [''item''])] [Element Title [] [] [Text ttl]]"

text \<open>The rows built by a sequence of \<open>_store_row\<close> calls, each with its flag.\<close>

definition built_rows :: "(docnode \<times> docnode list \<times> bool) list \<Rightarrow> (docnode \<times> bool) list" where
  "built_rows calls = map (\<lambda>(left, rights, covered). (row_node left rights, covered)) calls"

text \<open>
  A row of the matrix: a row node whose children are as many entries as the table has
  columns.
\<close>

definition is_matrix_row :: "item_matrix \<Rightarrow> docnode \<Rightarrow> bool" where
  "is_matrix_row self row =
     (row = Element Row [] [] (children row)
      \<and> length (children row) = number_of_columns self
      \<and> list_all is_entry (children row))"

text \<open>
  The row built for a source id, with its flag: its first entry holds the reference to
  the source item. The row built for an external source: its first entry holds the
  external reference, if there is one.
\<close>

definition is_source_row ::
  "app \<Rightarrow> collection \<Rightarrow> item_matrix \<Rightarrow> string \<Rightarrow> docnode \<times> bool \<Rightarrow> bool" where
  "is_source_row ap coll self source_id =
     (\<lambda>(row, covered).
        covered = source_has_relationship coll self source_id
        \<and> is_matrix_row self row
        \<and> (case internal_ref ap self source_id of
             None \<Rightarrow> False
           | Some ref \<Rightarrow> hd (children row) = Element Entry [] [] [ref]))"

definition is_external_row ::
  "app \<Rightarrow> item_matrix \<Rightarrow> string \<times> string \<times> string list \<Rightarrow> docnode \<times> bool \<Rightarrow> bool" where
  "is_external_row ap self =
     (\<lambda>(ext_rel, ext_source, item_ids) (row, covered).
        covered = external_has_target ap self item_ids
        \<and> is_matrix_row self row
        \<and> hd (children row)
            = iadd (Element Entry [] [] []) (make_external_item_ref ap ext_source ext_rel))"


subsection \<open>A small document set\<close>

text \<open>
  Two requirements and a test; \<open>REQ-1\<close> is validated by \<open>TEST-1\<close> and has an external
  target, \<open>GHOST\<close> is referenced but undefined. Regexes are literal prefixes here.
\<close>

definition demo_items :: "string \<rightharpoonup> item" where
  "demo_items =
     [''REQ-1'' \<mapsto> \<lparr>item_id = ''REQ-1'', item_docname = ''reqs'', caption = ''First'',
                     placeholder = False,
                     targets = (\<lambda>rel. if rel = ''validated_by'' then [''TEST-1'']
                                      else if rel = ''ext_jira'' then [''PROJ:42''] else [])\<rparr>,
      ''REQ-2'' \<mapsto> \<lparr>item_id = ''REQ-2'', item_docname = ''reqs'', caption = [],
                     placeholder = False, targets = (\<lambda>rel. [])\<rparr>,
      ''TEST-1'' \<mapsto> \<lparr>item_id = ''TEST-1'', item_docname = ''tests'', caption = [],
                      placeholder = False, targets = (\<lambda>rel. [])\<rparr>,
      ''GHOST'' \<mapsto> \<lparr>item_id = ''GHOST'', item_docname = [], caption = [],
                     placeholder = True, targets = (\<lambda>rel. [])\<rparr>,
      ''NOTE'' \<mapsto> \<lparr>item_id = ''NOTE'', item_docname = ''notes'', caption = [],
                    placeholder = False, targets = (\<lambda>rel. [])\<rparr>]"

definition demo_collection :: collection where
  "demo_collection =
     \<lparr>items = demo_items,
      get_items = (\<lambda>regex attrs. filter (prefix regex) [''REQ-1'', ''REQ-2'', ''TEST-1'']),
      iter_relations = [''validated_by'', ''validates'', ''ext_jira''],
      are_related = (\<lambda>source_id relationships target_id.
         case demo_items source_id of
           None \<Rightarrow> False
         | Some it \<Rightarrow> list_ex (\<lambda>rel. target_id \<in> set (targets it rel)) relationships),
      get_external_targets = (\<lambda>regex relation.
         if relation = ''ext_jira'' \<and> prefix regex ''REQ-1'' then [(''PROJ:42'', [''REQ-1''])]
         else [])\<rparr>"

definition demo_config :: config where
  "demo_config =
     \<lparr>traceability_notifications = Map.empty,
      traceability_hyperlink_colors = [(''TEST'', [''green''])],
      traceability_class_names = [[''green''] \<mapsto> ''colors_green''],
      traceability_external_relationship_to_url = [''ext_jira'' \<mapsto> ''http://jira/field1/field2'']\<rparr>"

definition demo_app :: app where
  "demo_app =
     \<lparr>config = demo_config, traceability_collection = demo_collection,
      get_relative_uri = (\<lambda>from_doc to_doc. Some (to_doc @ ''.html'')),
      is_latex_builder = False,
      re_match = prefix, re_search = (\<lambda>regex s. list_ex (prefix regex) (suffixes s)),
      make_id = (\<lambda>s. s)\<rparr>"

definition demo_matrix :: item_matrix where
  "demo_matrix =
     \<lparr>document = ''index'', line = 7, classes = [], title = ''Traceability matrix of items'',
      source = ''REQ'', filter_attributes = [], target = [''TEST''], targettitle = [''Target''],
      sourcetitle = ''Source'', rel_type = [''validated_by'', ''ext_jira''], group = ''top'',
      stats = True, nocaptions = False\<rparr>"

text \<open>
  An external tool whose URL takes the tenth field, and a builder that finds no URI
  (as for LaTeX output), with and without a notification item for undefined references.
\<close>

definition tool_app :: app where
  "tool_app =
     demo_app\<lparr>config := demo_config\<lparr>traceability_external_relationship_to_url :=
       [''ext_toolname'' \<mapsto> ''http://tool/field10'']\<rparr>\<rparr>"

definition notifying_config :: config where
  "notifying_config =
     demo_config\<lparr>traceability_notifications := [''undefined-reference'' \<mapsto> ''NOTE'']\<rparr>"

definition notifying_app :: app where
  "notifying_app = demo_app\<lparr>config := notifying_config\<rparr>"

definition no_uri_app :: app where
  "no_uri_app = notifying_app\<lparr>get_relative_uri := (\<lambda>from_doc to_doc. None)\<rparr>"

definition unstyled_app :: app where
  "unstyled_app =
     demo_app\<lparr>config := notifying_config\<lparr>traceability_hyperlink_colors := [(''GHOST'', [''red''])]\<rparr>\<rparr>"

text \<open>
  Four colours for the requirements: a colour tuple for which no class name is
  configured.
\<close>

definition four_colour_app :: app where
  "four_colour_app =
     demo_app\<lparr>config := demo_config\<lparr>traceability_hyperlink_colors :=
       [(''REQ'', [''red'', ''green'', ''blue'', ''black''])]\<rparr>\<rparr>"

section \<open>Properties\<close>

subsection \<open>Storing rows\<close>

lemma foldl_append_child:
  "foldl append_child (Element t raw ats cs) xs = Element t raw ats (cs @ xs)"
  by (induction xs arbitrary: cs) auto

lemma store_row_eq:
  "store_row rs left rights covered =
     rs\<lparr>rows_sorted := rows_sorted rs @ [row_node left rights],
        rows_covered := rows_covered rs @ (if covered then [row_node left rights] else []),
        rows_uncovered := rows_uncovered rs @ (if covered then [] else [row_node left rights])\<rparr>"
  by (simp add: store_row_def row_node_def foldl_append_child Let_def)

lemma store_rows_sorted:
  "rows_sorted (store_rows rs calls) =
     rows_sorted rs @ map (\<lambda>(left, rights, covered). row_node left rights) calls"
  unfolding store_rows_def
  by (induction calls arbitrary: rs) (auto simp: store_row_eq)

lemma store_rows_covered:
  "rows_covered (store_rows rs calls) =
     rows_covered rs
       @ map (\<lambda>(left, rights, covered). row_node left rights)
           (filter (\<lambda>(left, rights, covered). covered) calls)"
  unfolding store_rows_def
  by (induction calls arbitrary: rs) (auto simp: store_row_eq)

lemma store_rows_uncovered:
  "rows_uncovered (store_rows rs calls) =
     rows_uncovered rs
       @ map (\<lambda>(left, rights, covered). row_node left rights)
           (filter (\<lambda>(left, rights, covered). \<not> covered) calls)"
  unfolding store_rows_def
  by (induction calls arbitrary: rs) (auto simp: store_row_eq)

text \<open>
  C8. A call of \<open>_store_row\<close> appends the row to \<open>rows.sorted\<close> and to exactly one of
  \<open>rows.covered\<close> and \<open>rows.uncovered\<close>, to \<open>rows.covered\<close> exactly when the flag is set.
  After any sequence of calls on the empty \<open>Rows\<close> the sorted list has as many rows as the
  two other lists together, and the two lists hold the rows of the sorted list: the
  covered list its rows with the flag set, the uncovered list the others, each in the
  order of the sorted list.
\<close>

theorem store_row_partition:
  "rows_sorted (store_row rs left rights covered) = rows_sorted rs @ [row_node left rights]
   \<and> rows_covered (store_row rs left rights covered)
       = rows_covered rs @ (if covered then [row_node left rights] else [])
   \<and> rows_uncovered (store_row rs left rights covered)
       = rows_uncovered rs @ (if covered then [] else [row_node left rights])
   \<and> length (rows_sorted (store_rows no_rows calls))
       = length (rows_covered (store_rows no_rows calls))
         + length (rows_uncovered (store_rows no_rows calls))
   \<and> mset (rows_sorted (store_rows no_rows calls))
       = mset (rows_covered (store_rows no_rows calls))
         + mset (rows_uncovered (store_rows no_rows calls))
   \<and> rows_sorted (store_rows no_rows calls)
       = map (\<lambda>(left, rights, covered). row_node left rights) calls
   \<and> rows_covered (store_rows no_rows calls)
       = map (\<lambda>(left, rights, covered). row_node left rights)
           (filter (\<lambda>(left, rights, covered). covered) calls)
   \<and> rows_uncovered (store_rows no_rows calls)
       = map (\<lambda>(left, rights, covered). row_node left rights)
           (filter (\<lambda>(left, rights, covered). \<not> covered) calls)"
proof -
  let ?f = "\<lambda>(left, rights, covered). row_node left rights"
  let ?c = "\<lambda>(left :: docnode, rights :: docnode list, covered). covered"
  let ?u = "\<lambda>(left :: docnode, rights :: docnode list, covered). \<not> covered"
  have u: "?u = (\<lambda>x. \<not> ?c x)" by auto
  have s: "rows_sorted (store_rows no_rows calls) = map ?f calls"
    by (simp add: store_rows_sorted no_rows_def)
  have c: "rows_covered (store_rows no_rows calls) = map ?f (filter ?c calls)"
    by (simp add: store_rows_covered no_rows_def)
  have n: "rows_uncovered (store_rows no_rows calls) = map ?f (filter ?u calls)"
    by (simp add: store_rows_uncovered no_rows_def)
  have len: "length (map ?f calls)
      = length (map ?f (filter ?c calls)) + length (map ?f (filter ?u calls))"
    unfolding u length_map by (rule sum_length_filter_compl [symmetric])
  have ms: "mset (map ?f calls) = mset (map ?f (filter ?c calls)) + mset (map ?f (filter ?u calls))"
    unfolding u mset_map mset_filter by (simp flip: image_mset_union)
  show ?thesis
    unfolding s c n using len ms by (simp add: store_row_eq)
qed

subsection \<open>Loops\<close>

lemma for_each_append:
  "for_each body (xs @ ys) s =
     (case for_each body xs s of Inl e \<Rightarrow> Inl e | Inr s' \<Rightarrow> for_each body ys s')"
  by (induction xs arbitrary: s) (auto split: sum.splits)

lemma for_each_invariant:
  assumes "for_each body xs s = Inr s'" and "P s"
    and "\<And>x t t'. x \<in> set xs \<Longrightarrow> P t \<Longrightarrow> body x t = Inr t' \<Longrightarrow> P t'"
  shows "P s'"
  using assms
proof (induction xs arbitrary: s)
  case Nil
  then show ?case by simp
next
  case (Cons x xs)
  from Cons.prems(1) obtain t where t: "body x s = Inr t" and r: "for_each body xs t = Inr s'"
    by (auto split: sum.splits)
  have pt: "P t" using Cons.prems(3) [of x s t] Cons.prems(2) t by simp
  show ?case
  proof (rule Cons.IH [OF r pt])
    fix y u u'
    assume "y \<in> set xs" "P u" "body y u = Inr u'"
    then show "P u'" using Cons.prems(3) [of y u u'] by simp
  qed
qed

lemma for_each_flag:
  assumes "for_each body xs s = Inr s'"
    and "\<And>x t t'. x \<in> set xs \<Longrightarrow> body x t = Inr t' \<Longrightarrow> flag t' = (flag t \<or> trig x)"
  shows "flag s' = (flag s \<or> list_ex trig xs)"
  using assms
proof (induction xs arbitrary: s)
  case Nil
  then show ?case by simp
next
  case (Cons x xs)
  from Cons.prems(1) obtain t where t: "body x s = Inr t" and r: "for_each body xs t = Inr s'"
    by (auto split: sum.splits)
  have "flag t = (flag s \<or> trig x)" using Cons.prems(2) [of x s t] t by simp
  moreover have "flag s' = (flag t \<or> list_ex trig xs)"
  proof (rule Cons.IH [OF r])
    fix y u u'
    assume "y \<in> set xs" "body y u = Inr u'"
    then show "flag u' = (flag u \<or> trig y)" using Cons.prems(2) [of y u u'] by simp
  qed
  ultimately show ?case by simp
qed

lemma for_each_total:
  assumes "P s"
    and "\<And>x t. x \<in> set xs \<Longrightarrow> P t \<Longrightarrow> \<exists>t'. body x t = Inr t' \<and> P t'"
  shows "\<exists>s'. for_each body xs s = Inr s' \<and> P s'"
  using assms
proof (induction xs arbitrary: s)
  case Nil
  then show ?case by simp
next
  case (Cons x xs)
  from Cons.prems(2) [of x s] Cons.prems(1) obtain t where t: "body x s = Inr t" "P t"
    by auto
  have "\<exists>s'. for_each body xs t = Inr s' \<and> P s'"
  proof (rule Cons.IH [OF t(2)])
    fix y u
    assume "y \<in> set xs" "P u"
    then show "\<exists>t'. body y u = Inr t' \<and> P t'" using Cons.prems(2) [of y u] by simp
  qed
  then show ?case using t by auto
qed

lemma for_each_nested:
  "for_each (\<lambda>(a, bs). for_each (f a) bs) m s =
     for_each (\<lambda>(a, b). f a b) (concat (map (\<lambda>(a, bs). map (Pair a) bs) m)) s"
proof (induction m arbitrary: s)
  case Nil
  then show ?case by simp
next
  case (Cons p m)
  obtain a bs where p: "p = (a, bs)" by (cases p)
  have "for_each (\<lambda>(a, b). f a b) (map (Pair a) bs) t = for_each (f a) bs t" for t
    by (induction bs arbitrary: t) (auto split: sum.splits)
  then show ?case using Cons.IH by (simp add: p for_each_append split: sum.splits)
qed

text \<open>A loop whose body stores one row for each element.\<close>

lemma for_each_store:
  assumes "for_each body xs (rs, w) = Inr (rs', w')"
    and "\<And>x rs w rs' w'. x \<in> set xs \<Longrightarrow> body x (rs, w) = Inr (rs', w')
           \<Longrightarrow> \<exists>left rights covered. rs' = store_row rs left rights covered
                 \<and> Q x (left, rights, covered)"
  shows "\<exists>calls. rs' = store_rows rs calls \<and> list_all2 Q xs calls"
  using assms
proof (induction xs arbitrary: rs w)
  case Nil
  then show ?case by (simp add: store_rows_def)
next
  case (Cons x xs)
  from Cons.prems(1) obtain rs1 w1 where t: "body x (rs, w) = Inr (rs1, w1)"
      and r: "for_each body xs (rs1, w1) = Inr (rs', w')"
    by (auto split: sum.splits)
  from Cons.prems(2) [of x rs w rs1 w1] t obtain left rights covered
    where c: "rs1 = store_row rs left rights covered" "Q x (left, rights, covered)"
    by auto
  have "\<exists>calls. rs' = store_rows rs1 calls \<and> list_all2 Q xs calls"
  proof (rule Cons.IH [OF r])
    fix y rs w rs' w'
    assume "y \<in> set xs" "body y (rs, w) = Inr (rs', w')"
    then show "\<exists>left rights covered. rs' = store_row rs left rights covered
                 \<and> Q y (left, rights, covered)"
      using Cons.prems(2) [of y rs w rs' w'] by simp
  qed
  then obtain calls where k: "rs' = store_rows rs1 calls" "list_all2 Q xs calls"
    by auto
  have "rs' = store_rows rs ((left, rights, covered) # calls)"
    using k(1) c(1) by (simp add: store_rows_def)
  then show ?case using k(2) c(2) by blast
qed

lemma store_rows_append: "store_rows rs (xs @ ys) = store_rows (store_rows rs xs) ys"
  by (simp add: store_rows_def)

lemma list_ex_enumerate: "list_ex (\<lambda>(i, x). Q x) (enumerate n xs) = list_ex Q xs"
  by (induction xs arbitrary: n) auto

lemma is_entry_append_child [simp]: "is_entry (append_child n c) = is_entry n"
  by (cases n) auto

lemma is_entry_iadd [simp]: "is_entry (iadd n c) = is_entry n"
  by (cases c) auto

subsection \<open>References to items\<close>

lemma has_tag_append_child [simp]:
  "has_tag t (append_child n c) = (has_tag t n \<or> (\<exists>tg raw ats cs. n = Element tg raw ats cs) \<and> has_tag t c)"
  by (cases n) auto

lemma has_tag_extend_classes [simp]: "has_tag t (extend_classes n cs) = has_tag t n"
  by (cases n) auto

lemma has_tag_set_attr [simp]: "has_tag t (set_attr n k v) = has_tag t n"
  by (cases n) auto

lemma has_tag_text_element [simp]: "has_tag t (text_element tg raw txt ats) = (tg = t)"
  by (simp add: text_element_def)

lemma has_tag_link_to [simp]: "has_tag t (link_to ap self n d a) = has_tag t n"
  by (simp add: link_to_def split: option.splits)

lemma item_reference_ok:
  assumes "n_item \<noteq> None \<longrightarrow> n_id \<noteq> None"
  shows "(\<exists>r. item_reference ap self it n_id n_item iid sc = Inr r) = class_name_known ap iid"
  using assms
  by (auto simp: item_reference_def class_name_known_def Let_def
      split: option.splits prod.splits)


lemma make_internal_item_ref_ok:
  "(\<exists>r. make_internal_item_ref ap self w iid sc = Inr r) = can_reference ap iid"
proof (cases "items (traceability_collection ap) iid")
  case None
  then show ?thesis by (simp add: make_internal_item_ref_def can_reference_def get_item_def)
next
  case (Some it)
  let ?n_id = "if placeholder it
      then traceability_notifications (config ap) ''undefined-reference'' else None"
  let ?n_item = "if placeholder it then get_item (traceability_collection ap) ?n_id else None"
  have "?n_item \<noteq> None \<longrightarrow> ?n_id \<noteq> None"
    by (auto simp: get_item_def split: option.splits)
  from item_reference_ok [OF this, of ap self it iid sc]
  show ?thesis
    using Some
    by (auto simp: make_internal_item_ref_def can_reference_def get_item_def Let_def
        notification_item_of_def split: sum.splits)
qed


lemma internal_ref_eq:
  "make_internal_item_ref ap self w iid True = Inr (ref, w') \<Longrightarrow> internal_ref ap self iid = Some ref"
  by (auto simp: internal_ref_def make_internal_item_ref_def Let_def
      split: option.splits sum.splits if_splits)

lemma make_internal_item_ref_paragraph:
  "make_internal_item_ref ap self w iid sc = Inr (ref, w') \<Longrightarrow>
     \<exists>c. ref = Element Paragraph [] [] [c]"
  by (auto simp: make_internal_item_ref_def Let_def text_element_def
      split: option.splits sum.splits if_splits)

subsection \<open>Building the rows\<close>

lemma row_shape_empty_entries: "row_shape (number_of_columns self - 1) (empty_entries self, c, w)"
  by (simp add: row_shape_def empty_entries_def list_all_iff)

lemma add_external_refs_step:
  assumes "add_external_refs ap source_item rel st = Inr st'"
  shows "(row_shape n st \<longrightarrow> row_shape n st')
    \<and> fst (snd st') = (fst (snd st) \<or> (case source_item of None \<Rightarrow> False | Some it \<Rightarrow> targets it rel \<noteq> []))"
proof (cases source_item)
  case None
  then show ?thesis using assms by (simp add: add_external_refs_def)
next
  case (Some it)
  let ?body = "\<lambda>target_id (rights, covered, wlog).
      Inr (map (\<lambda>right. iadd right (make_external_item_ref ap target_id rel)) rights, True, wlog)
        :: error + row_state"
  have run: "for_each ?body (targets it rel) st = Inr st'"
    using assms Some by (simp add: add_external_refs_def)
  have shape: "row_shape n st \<Longrightarrow> row_shape n st'"
    by (rule for_each_invariant [OF run]) (auto simp: row_shape_def list_all_iff)
  have "fst (snd st') = (fst (snd st) \<or> list_ex (\<lambda>t. True) (targets it rel))"
    by (rule for_each_flag [OF run]) auto
  moreover have "list_ex (\<lambda>t. True) xs = (xs \<noteq> [])" for xs :: "string list"
    by (cases xs) auto
  ultimately show ?thesis using shape Some by simp
qed

lemma add_internal_ref_step:
  assumes "add_internal_ref ap self idx target_id st = Inr st'"
  shows "(row_shape n st \<longrightarrow> row_shape n st') \<and> fst (snd st')"
  using assms
  by (auto simp: add_internal_ref_def row_shape_def list_all_length nth_list_update
      split: prod.splits if_splits sum.splits)

lemma add_related_targets_step:
  assumes "add_related_targets ap coll self source_id rels (idx, target_ids) st = Inr st'"
  shows "(row_shape n st \<longrightarrow> row_shape n st')
    \<and> fst (snd st') = (fst (snd st) \<or> list_ex (are_related coll source_id rels) target_ids)"
proof -
  let ?body = "\<lambda>target_id st. if are_related coll source_id rels target_id
      then add_internal_ref ap self idx target_id st else Inr st"
  have run: "for_each ?body target_ids st = Inr st'"
    using assms by (simp add: add_related_targets_def)
  have shape: "row_shape n st \<Longrightarrow> row_shape n st'"
    by (rule for_each_invariant [OF run]) (auto dest: add_internal_ref_step split: if_splits)
  have "fst (snd st') = (fst (snd st) \<or> list_ex (are_related coll source_id rels) target_ids)"
    by (rule for_each_flag [OF run]) (auto dest: add_internal_ref_step split: if_splits)
  then show ?thesis using shape by simp
qed

lemma add_matching_targets_step:
  assumes "add_matching_targets ap self item_ids (idx, target_regex) st = Inr st'"
  shows "(row_shape n st \<longrightarrow> row_shape n st')
    \<and> fst (snd st') = (fst (snd st) \<or> list_ex (re_match ap target_regex) item_ids)"
proof -
  let ?body = "\<lambda>target_id st. if re_match ap target_regex target_id
      then add_internal_ref ap self idx target_id st else Inr st"
  have run: "for_each ?body item_ids st = Inr st'"
    using assms by (simp add: add_matching_targets_def)
  have shape: "row_shape n st \<Longrightarrow> row_shape n st'"
    by (rule for_each_invariant [OF run]) (auto dest: add_internal_ref_step split: if_splits)
  have "fst (snd st') = (fst (snd st) \<or> list_ex (re_match ap target_regex) item_ids)"
    by (rule for_each_flag [OF run]) (auto dest: add_internal_ref_step split: if_splits)
  then show ?thesis using shape by simp
qed

lemma source_row_call:
  assumes "source_row ap coll self rels ext_rels twi sid (rs, w) = Inr (rs', w')"
  shows "\<exists>left rights covered ref. rs' = store_row rs left rights covered
     \<and> covered =
         (list_ex (\<lambda>rel. case get_item coll (Some sid) of None \<Rightarrow> False
                          | Some it \<Rightarrow> targets it rel \<noteq> []) ext_rels
          \<or> list_ex (\<lambda>tids. list_ex (are_related coll sid rels) tids) twi)
     \<and> internal_ref ap self sid = Some ref \<and> left = Element Entry [] [] [ref]
     \<and> length rights = number_of_columns self - 1 \<and> list_all is_entry rights"
proof -
  let ?n = "number_of_columns self - 1"
  let ?item = "get_item coll (Some sid)"
  from assms obtain ref w1 st rights covered where
    ref: "make_internal_item_ref ap self w sid True = Inr (ref, w1)"
    and ext: "for_each (add_external_refs ap ?item) ext_rels (empty_entries self, False, w1) = Inr st"
    and int: "for_each (add_related_targets ap coll self sid rels) (enumerate 0 twi) st
                = Inr (rights, covered, w')"
    and rs': "rs' = store_row rs (append_child (Element Entry [] [] []) ref) rights covered"
    by (auto simp: source_row_def Let_def split: sum.splits prod.splits)
  have s1: "row_shape ?n st"
    by (rule for_each_invariant [where P = "row_shape ?n", OF ext row_shape_empty_entries])
      (use add_external_refs_step in blast)
  have f1: "fst (snd st) = (fst (snd (empty_entries self, False, w1))
      \<or> list_ex (\<lambda>rel. case ?item of None \<Rightarrow> False | Some it \<Rightarrow> targets it rel \<noteq> []) ext_rels)"
    by (rule for_each_flag [OF ext]) (use add_external_refs_step in blast)
  have s2: "row_shape ?n (rights, covered, w')"
    by (rule for_each_invariant [where P = "row_shape ?n", OF int s1])
      (use add_related_targets_step in \<open>auto simp: split_paired_all\<close>)
  have f2: "fst (snd (rights, covered, w')) = (fst (snd st)
      \<or> list_ex (\<lambda>(idx, tids). list_ex (are_related coll sid rels) tids) (enumerate 0 twi))"
  proof (rule for_each_flag [OF int])
    fix x t t'
    assume "add_related_targets ap coll self sid rels x t = Inr t'"
    then show "fst (snd t') = (fst (snd t) \<or> (case x of (idx, tids) \<Rightarrow>
        list_ex (are_related coll sid rels) tids))"
      using add_related_targets_step [of ap coll self sid rels "fst x" "snd x" t t']
      by (cases x) simp
  qed
  have cov: "covered =
      (list_ex (\<lambda>rel. case ?item of None \<Rightarrow> False | Some it \<Rightarrow> targets it rel \<noteq> []) ext_rels
       \<or> list_ex (\<lambda>tids. list_ex (are_related coll sid rels) tids) twi)"
    using f1 f2 by (simp add: list_ex_enumerate)
  have "rs' = store_row rs (Element Entry [] [] [ref]) rights covered"
    using rs' by simp
  moreover have "length rights = ?n \<and> list_all is_entry rights"
    using s2 by (simp add: row_shape_def)
  ultimately show ?thesis
    using cov internal_ref_eq [OF ref] by blast
qed

lemma external_row_call:
  assumes "external_row ap self ext_rel (ext_source, item_ids) (rs, w) = Inr (rs', w')"
  shows "\<exists>left rights covered. rs' = store_row rs left rights covered
     \<and> external_call ap self (ext_rel, ext_source, item_ids) (left, rights, covered)"
proof -
  let ?n = "number_of_columns self - 1"
  let ?left = "iadd (Element Entry [] [] []) (make_external_item_ref ap ext_source ext_rel)"
  from assms obtain rights covered where
    run: "for_each (add_matching_targets ap self item_ids) (enumerate 0 (target self))
            (empty_entries self, False, w) = Inr (rights, covered, w')"
    and rs': "rs' = store_row rs ?left rights covered"
    by (auto simp: external_row_def Let_def split: sum.splits prod.splits)
  have s: "row_shape ?n (rights, covered, w')"
    by (rule for_each_invariant [where P = "row_shape ?n", OF run row_shape_empty_entries])
      (use add_matching_targets_step in \<open>auto simp: split_paired_all\<close>)
  have f: "fst (snd (rights, covered, w')) = (fst (snd (empty_entries self, False, w))
      \<or> list_ex (\<lambda>(idx, re). list_ex (re_match ap re) item_ids) (enumerate 0 (target self)))"
  proof (rule for_each_flag [OF run])
    fix x t t'
    assume "add_matching_targets ap self item_ids x t = Inr t'"
    then show "fst (snd t') = (fst (snd t) \<or> (case x of (idx, re) \<Rightarrow>
        list_ex (re_match ap re) item_ids))"
      using add_matching_targets_step [of ap self item_ids "fst x" "snd x" t t']
      by (cases x) simp
  qed
  have "covered = external_has_target ap self item_ids"
    using f by (simp add: list_ex_enumerate external_has_target_def)
  then show ?thesis
    using rs' s by (auto simp: external_call_def row_shape_def)
qed

lemma build_rows_calls:
  assumes "build_rows ap coll self w = Inr (rs, w')"
  shows "\<exists>src ext. rs = store_rows no_rows (src @ ext)
     \<and> list_all2 (source_call ap coll self) (source_ids_of coll self) src
     \<and> list_all2 (external_call ap self) (external_sources coll self) ext"
proof -
  obtain rels ext_rels where re: "relationships_of coll self = (rels, ext_rels)"
    by (cases "relationships_of coll self")
  let ?twi = "map (\<lambda>target_regex. get_items coll target_regex None) (target self)"
  from assms re obtain rs1 w1 where
    src: "for_each (source_row ap coll self rels ext_rels ?twi) (source_ids_of coll self)
            (no_rows, w) = Inr (rs1, w1)"
    and ext: "for_each (\<lambda>(ext_rel, ext_targets_to_item_ids).
                  for_each (external_row ap self ext_rel) ext_targets_to_item_ids)
               (ext_relations_to_target_map coll self ext_rels) (rs1, w1) = Inr (rs, w')"
    by (auto simp: build_rows_def Let_def source_ids_of_def no_rows_def split: sum.splits)
  have ext': "for_each (\<lambda>(ext_rel, p). external_row ap self ext_rel p)
      (external_sources coll self) (rs1, w1) = Inr (rs, w')"
    using ext by (simp add: for_each_nested external_sources_def re)
  have "\<exists>calls. rs1 = store_rows no_rows calls
      \<and> list_all2 (source_call ap coll self) (source_ids_of coll self) calls"
  proof (rule for_each_store [OF src])
    fix x rs w rs' w'
    assume "source_row ap coll self rels ext_rels ?twi x (rs, w) = Inr (rs', w')"
    from source_row_call [OF this]
    show "\<exists>left rights covered. rs' = store_row rs left rights covered
        \<and> source_call ap coll self x (left, rights, covered)"
      by (auto simp: source_call_def source_has_relationship_def re list_ex_iff)
  qed
  then obtain c1 where c1: "rs1 = store_rows no_rows c1"
      "list_all2 (source_call ap coll self) (source_ids_of coll self) c1"
    by auto
  have "\<exists>calls. rs = store_rows rs1 calls
      \<and> list_all2 (external_call ap self) (external_sources coll self) calls"
  proof (rule for_each_store [OF ext'])
    fix x rs w rs' w'
    assume "(case x of (ext_rel, p) \<Rightarrow> external_row ap self ext_rel p) (rs, w) = Inr (rs', w')"
    then show "\<exists>left rights covered. rs' = store_row rs left rights covered
        \<and> external_call ap self x (left, rights, covered)"
      using external_row_call [of ap self "fst x" "fst (snd x)" "snd (snd x)" rs w rs' w']
      by (cases x) auto
  qed
  then obtain c2 where c2: "rs = store_rows rs1 c2"
      "list_all2 (external_call ap self) (external_sources coll self) c2"
    by auto
  show ?thesis
    using c1 c2 by (auto simp: store_rows_append)
qed

subsection \<open>Statistics and the table\<close>

lemma py_int_nonneg: "0 \<le> x \<Longrightarrow> py_int x = \<lfloor>x\<rfloor>"
  by (simp add: py_int_def)

lemma percentage_eq:
  "percentage c t = Inr (if t = 0 then 0 else (100 * int c) div int t)"
proof (cases "t = 0")
  case True
  then show ?thesis by (simp add: percentage_def true_div_def)
next
  case False
  have "\<lfloor>real_of_int (100 * int c) / real_of_int (int t)\<rfloor> = (100 * int c) div int t"
    by (rule floor_divide_of_int_eq)
  moreover have "0 \<le> real_of_int (100 * int c) / real_of_int (int t)"
    by simp
  ultimately show ?thesis
    using False by (simp add: percentage_def true_div_def py_int_nonneg del: of_int_mult of_int_of_nat_eq)
qed

lemma statistics_eq:
  "statistics rs =
     Inr (''Statistics: '' @ str_nat (length (rows_covered rs)) @ '' out of ''
            @ str_nat (length (rows_sorted rs)) @ '' covered: ''
            @ str_int (if length (rows_sorted rs) = 0 then 0
                       else (100 * int (length (rows_covered rs))) div int (length (rows_sorted rs)))
            @ ''%'')"
  by (simp add: statistics_def percentage_eq Let_def)

lemma create_top_node_None:
  "create_top_node self w ttl None = Inr (Element Container [] [] [admonition_node ttl], w)"
  by (simp add: create_top_node_def admonition_node_def text_element_def classes_of_def)

lemma perform_replacement_rows:
  assumes "perform_replacement ap coll self w = Inr out"
  shows "\<exists>rs disp. build_rows ap coll self w = Inr (rs, warnings out) \<and> statistics rs = Inr disp
     \<and> replaced_by out =
         [Element Container [] []
            ([admonition_node (title self)]
             @ (if stats self then [Element Paragraph [] [] [Text disp]] else [])
             @ [table_node self (table_body self rs)])]"
  using assms
  by (auto simp: perform_replacement_def create_top_node_None Let_def text_element_def
      split: sum.splits prod.splits if_splits)

lemma table_node_eq:
  "table_node self tbody =
     Element Table []
       (if classes self \<noteq> [] then [(''classes'', AStrs (classes self))] else [])
       [Element TGroup [] []
          (replicate (number_of_columns self) (Element ColSpec [] [(''colwidth'', ANum 5)] [])
           @ [Element THead [] []
                [Element Row [] []
                   (map (\<lambda>ttl. Element Entry [] [] [text_element Paragraph [] ttl []])
                      (sourcetitle self # targettitle self))],
              tbody])]"
  by (simp add: table_node_def Let_def classes_of_def map_replicate_const)

lemma table_body_eq:
  "table_body self rs =
     Element TBody [] []
       (if group self = [] then rows_sorted rs
        else if group self = ''top'' then rows_uncovered rs @ rows_covered rs
        else if group self = ''bottom'' then rows_covered rs @ rows_uncovered rs
        else [])"
  by (simp add: table_body_def Let_def)

lemma emitted_rows_eq:
  assumes "perform_replacement ap coll self w = Inr out"
  shows "\<exists>rs. build_rows ap coll self w = Inr (rs, warnings out)
     \<and> emitted_table out = table_node self (table_body self rs)
     \<and> emitted_rows out =
         (if group self = [] then rows_sorted rs
          else if group self = ''top'' then rows_uncovered rs @ rows_covered rs
          else if group self = ''bottom'' then rows_covered rs @ rows_uncovered rs
          else [])"
proof -
  from perform_replacement_rows [OF assms] obtain rs disp where
    b: "build_rows ap coll self w = Inr (rs, warnings out)"
    and r: "replaced_by out =
         [Element Container [] []
            ([admonition_node (title self)]
             @ (if stats self then [Element Paragraph [] [] [Text disp]] else [])
             @ [table_node self (table_body self rs)])]"
    by blast
  have t: "emitted_table out = table_node self (table_body self rs)"
    by (simp add: emitted_table_def r)
  have "emitted_rows out = children (table_body self rs)"
    unfolding emitted_rows_def t by (simp add: table_node_eq)
  then show ?thesis using b t by (auto simp: table_body_eq)
qed

lemma store_rows_built:
  "rows_sorted (store_rows no_rows calls) = map fst (built_rows calls)"
  "rows_covered (store_rows no_rows calls) = map fst (filter snd (built_rows calls))"
  "rows_uncovered (store_rows no_rows calls) = map fst (filter (\<lambda>b. \<not> snd b) (built_rows calls))"
  by (simp_all add: store_rows_sorted store_rows_covered store_rows_uncovered no_rows_def
      built_rows_def filter_map comp_def case_prod_unfold)

lemma source_flags:
  "list_all2 (source_call ap coll self) sids calls \<Longrightarrow>
     map snd (built_rows calls) = map (source_has_relationship coll self) sids"
  by (induction sids calls rule: list_all2_induct) (auto simp: built_rows_def source_call_def)

lemma external_flags:
  "list_all2 (external_call ap self) srcs calls \<Longrightarrow>
     map snd (built_rows calls)
       = map (\<lambda>(ext_rel, ext_source, item_ids). external_has_target ap self item_ids) srcs"
  by (induction srcs calls rule: list_all2_induct) (auto simp: built_rows_def external_call_def)

lemma built_rows_append: "built_rows (xs @ ys) = built_rows xs @ built_rows ys"
  by (simp add: built_rows_def)

text \<open>
  C1. In a run of \<open>perform_replacement\<close> that returns, every row built has its flag:
  the rows of \<open>rows.sorted\<close> are the rows built, in order, \<open>rows.covered\<close> holds those
  with the flag set and \<open>rows.uncovered\<close> the others. The flags are, for the source ids in
  order, whether a target of an external relationship or a related item of a \<open>target\<close>
  regex was found for the source, followed, for the external sources in order, by whether
  a returned item id matches a \<open>target\<close> regex.
\<close>

theorem coverage_flag:
  assumes "perform_replacement ap coll self wlog = Inr out"
  shows "\<exists>rs built. build_rows ap coll self wlog = Inr (rs, warnings out)
     \<and> rows_sorted rs = map fst built
     \<and> rows_covered rs = map fst (filter snd built)
     \<and> rows_uncovered rs = map fst (filter (\<lambda>b. \<not> snd b) built)
     \<and> map snd built =
         map (source_has_relationship coll self) (source_ids_of coll self)
         @ map (\<lambda>(ext_rel, ext_source, item_ids). external_has_target ap self item_ids)
             (external_sources coll self)"
proof -
  from perform_replacement_rows [OF assms] obtain rs where
    b: "build_rows ap coll self wlog = Inr (rs, warnings out)"
    by blast
  from build_rows_calls [OF b] obtain src ext where
    rs: "rs = store_rows no_rows (src @ ext)"
    and s: "list_all2 (source_call ap coll self) (source_ids_of coll self) src"
    and e: "list_all2 (external_call ap self) (external_sources coll self) ext"
    by blast
  let ?built = "built_rows (src @ ext)"
  have "map snd ?built =
      map (source_has_relationship coll self) (source_ids_of coll self)
      @ map (\<lambda>(ext_rel, ext_source, item_ids). external_has_target ap self item_ids)
          (external_sources coll self)"
    by (simp add: built_rows_append source_flags [OF s] external_flags [OF e])
  then show ?thesis
    using b store_rows_built [of "src @ ext"] unfolding rs by blast
qed

theorem coverage_flag_witness:
  "\<exists>out rs built. perform_replacement demo_app demo_collection demo_matrix [] = Inr out
     \<and> build_rows demo_app demo_collection demo_matrix [] = Inr (rs, warnings out)
     \<and> rows_sorted rs = map fst built
     \<and> rows_covered rs = map fst (filter snd built)
     \<and> rows_uncovered rs = map fst (filter (\<lambda>b. \<not> snd b) built)
     \<and> map snd built = [True, False, False]"
proof -
  have "\<not> isl (perform_replacement demo_app demo_collection demo_matrix [])"
    by code_simp
  then obtain out where
    out: "perform_replacement demo_app demo_collection demo_matrix [] = Inr out"
    by (cases "perform_replacement demo_app demo_collection demo_matrix []") auto
  have flags: "map (source_has_relationship demo_collection demo_matrix)
        (source_ids_of demo_collection demo_matrix)
      @ map (\<lambda>(ext_rel, ext_source, item_ids). external_has_target demo_app demo_matrix item_ids)
          (external_sources demo_collection demo_matrix) = [True, False, False]"
    by code_simp
  from coverage_flag [OF out] obtain rs built where
    "build_rows demo_app demo_collection demo_matrix [] = Inr (rs, warnings out)
     \<and> rows_sorted rs = map fst built
     \<and> rows_covered rs = map fst (filter snd built)
     \<and> rows_uncovered rs = map fst (filter (\<lambda>b. \<not> snd b) built)
     \<and> map snd built = [True, False, False]"
    unfolding flags by (elim exE)
  with out show ?thesis
    by (intro exI [of _ out] exI [of _ rs] exI [of _ built] conjI) simp_all
qed

subsection \<open>The rows of the table\<close>

lemma number_of_columns_pos: "Suc (number_of_columns self - Suc 0) = number_of_columns self"
  by (simp add: number_of_columns_def)

lemma source_rows_built:
  "list_all2 (source_call ap coll self) sids calls \<Longrightarrow>
     list_all2 (is_source_row ap coll self) sids (built_rows calls)"
  unfolding built_rows_def
  by (induction sids calls rule: list_all2_induct)
    (auto simp: source_call_def is_source_row_def is_matrix_row_def row_node_def
      number_of_columns_pos split: option.splits)

lemma external_rows_built:
  "list_all2 (external_call ap self) srcs calls \<Longrightarrow>
     list_all2 (is_external_row ap self) srcs (built_rows calls)"
  unfolding built_rows_def
  by (induction srcs calls rule: list_all2_induct)
    (auto simp: external_call_def is_external_row_def is_matrix_row_def row_node_def
      number_of_columns_pos)

lemma perform_replacement_built:
  assumes "perform_replacement ap coll self w = Inr out"
  shows "\<exists>src ext. list_all2 (is_source_row ap coll self) (source_ids_of coll self) src
     \<and> list_all2 (is_external_row ap self) (external_sources coll self) ext
     \<and> emitted_rows out =
         (if group self = [] then map fst (src @ ext)
          else if group self = ''top'' then
            map fst (filter (\<lambda>b. \<not> snd b) (src @ ext)) @ map fst (filter snd (src @ ext))
          else if group self = ''bottom'' then
            map fst (filter snd (src @ ext)) @ map fst (filter (\<lambda>b. \<not> snd b) (src @ ext))
          else [])"
proof -
  from emitted_rows_eq [OF assms] obtain rs where
    b: "build_rows ap coll self w = Inr (rs, warnings out)"
    and r: "emitted_rows out =
         (if group self = [] then rows_sorted rs
          else if group self = ''top'' then rows_uncovered rs @ rows_covered rs
          else if group self = ''bottom'' then rows_covered rs @ rows_uncovered rs
          else [])"
    by blast
  from build_rows_calls [OF b] obtain src ext where
    rs: "rs = store_rows no_rows (src @ ext)"
    and s: "list_all2 (source_call ap coll self) (source_ids_of coll self) src"
    and e: "list_all2 (external_call ap self) (external_sources coll self) ext"
    by blast
  have "emitted_rows out =
         (if group self = [] then map fst (built_rows src @ built_rows ext)
          else if group self = ''top'' then
            map fst (filter (\<lambda>b. \<not> snd b) (built_rows src @ built_rows ext))
            @ map fst (filter snd (built_rows src @ built_rows ext))
          else if group self = ''bottom'' then
            map fst (filter snd (built_rows src @ built_rows ext))
            @ map fst (filter (\<lambda>b. \<not> snd b) (built_rows src @ built_rows ext))
          else [])"
    unfolding r rs store_rows_built built_rows_append ..
  then show ?thesis
    using source_rows_built [OF s] external_rows_built [OF e] by blast
qed

lemma mset_filter_split:
  "mset (map f (filter P xs)) + mset (map f (filter (\<lambda>b. \<not> P b) xs)) = mset (map f xs)"
  by (induction xs) auto

text \<open>
  C2. In a run that returns, the rows built are the rows of the source ids in their
  order followed by the rows of the external sources. Without \<open>group\<close> the table body
  holds them in that order; with \<open>top\<close> the uncovered rows come first and the covered rows
  after them; with \<open>bottom\<close> the covered rows come first. In the three cases the body
  holds the same rows with the same multiplicities.
\<close>

theorem row_grouping:
  assumes "perform_replacement ap coll self wlog = Inr out"
  shows "\<exists>src ext. list_all2 (is_source_row ap coll self) (source_ids_of coll self) src
     \<and> list_all2 (is_external_row ap self) (external_sources coll self) ext
     \<and> (group self = [] \<longrightarrow> emitted_rows out = map fst (src @ ext))
     \<and> (group self = ''top'' \<longrightarrow>
          emitted_rows out
            = map fst (filter (\<lambda>b. \<not> snd b) (src @ ext)) @ map fst (filter snd (src @ ext)))
     \<and> (group self = ''bottom'' \<longrightarrow>
          emitted_rows out
            = map fst (filter snd (src @ ext)) @ map fst (filter (\<lambda>b. \<not> snd b) (src @ ext)))
     \<and> (group self = [] \<or> group self = ''top'' \<or> group self = ''bottom'' \<longrightarrow>
          mset (emitted_rows out) = mset (map fst (src @ ext)))"
proof -
  from perform_replacement_built [OF assms] obtain src ext where
    s: "list_all2 (is_source_row ap coll self) (source_ids_of coll self) src"
    and e: "list_all2 (is_external_row ap self) (external_sources coll self) ext"
    and r: "emitted_rows out =
         (if group self = [] then map fst (src @ ext)
          else if group self = ''top'' then
            map fst (filter (\<lambda>b. \<not> snd b) (src @ ext)) @ map fst (filter snd (src @ ext))
          else if group self = ''bottom'' then
            map fst (filter snd (src @ ext)) @ map fst (filter (\<lambda>b. \<not> snd b) (src @ ext))
          else [])"
    by blast
  have m: "group self = [] \<or> group self = ''top'' \<or> group self = ''bottom'' \<Longrightarrow>
      mset (emitted_rows out) = mset (map fst (src @ ext))"
    unfolding r using mset_filter_split [of fst snd "src @ ext"]
    by (auto simp: add.commute simp del: map_append filter_append)
  have g: "group self = [] \<Longrightarrow> emitted_rows out = map fst (src @ ext)"
    "group self = ''top'' \<Longrightarrow> emitted_rows out
       = map fst (filter (\<lambda>b. \<not> snd b) (src @ ext)) @ map fst (filter snd (src @ ext))"
    "group self = ''bottom'' \<Longrightarrow> emitted_rows out
       = map fst (filter snd (src @ ext)) @ map fst (filter (\<lambda>b. \<not> snd b) (src @ ext))"
    unfolding r by simp_all
  show ?thesis
    using s e m g by blast
qed

theorem row_grouping_witness:
  "(\<exists>out src ext.
      perform_replacement demo_app demo_collection (demo_matrix\<lparr>group := []\<rparr>) [] = Inr out
      \<and> list_all2 (is_source_row demo_app demo_collection (demo_matrix\<lparr>group := []\<rparr>))
          [''REQ-1'', ''REQ-2''] src
      \<and> list_all2 (is_external_row demo_app (demo_matrix\<lparr>group := []\<rparr>))
          [(''ext_jira'', ''PROJ:42'', [''REQ-1''])] ext
      \<and> emitted_rows out = map fst (src @ ext)
      \<and> mset (emitted_rows out) = mset (map fst (src @ ext)))
   \<and> (\<exists>out src ext.
      perform_replacement demo_app demo_collection demo_matrix [] = Inr out
      \<and> list_all2 (is_source_row demo_app demo_collection demo_matrix) [''REQ-1'', ''REQ-2''] src
      \<and> list_all2 (is_external_row demo_app demo_matrix)
          [(''ext_jira'', ''PROJ:42'', [''REQ-1''])] ext
      \<and> emitted_rows out
          = map fst (filter (\<lambda>b. \<not> snd b) (src @ ext)) @ map fst (filter snd (src @ ext))
      \<and> mset (emitted_rows out) = mset (map fst (src @ ext)))
   \<and> (\<exists>out src ext.
      perform_replacement demo_app demo_collection (demo_matrix\<lparr>group := ''bottom''\<rparr>) []
        = Inr out
      \<and> list_all2 (is_source_row demo_app demo_collection (demo_matrix\<lparr>group := ''bottom''\<rparr>))
          [''REQ-1'', ''REQ-2''] src
      \<and> list_all2 (is_external_row demo_app (demo_matrix\<lparr>group := ''bottom''\<rparr>))
          [(''ext_jira'', ''PROJ:42'', [''REQ-1''])] ext
      \<and> emitted_rows out
          = map fst (filter snd (src @ ext)) @ map fst (filter (\<lambda>b. \<not> snd b) (src @ ext))
      \<and> mset (emitted_rows out) = mset (map fst (src @ ext)))"
proof -
  have s: "source_ids_of demo_collection m = [''REQ-1'', ''REQ-2'']"
    if "source m = ''REQ''" for m :: item_matrix
    using that by (simp add: source_ids_of_def demo_collection_def)
  have e: "external_sources demo_collection (demo_matrix\<lparr>group := g\<rparr>)
      = [(''ext_jira'', ''PROJ:42'', [''REQ-1''])]" for g
    by (simp add: external_sources_def relationships_of_def demo_matrix_def
        is_relation_external_def ext_relations_to_target_map_def demo_collection_def)
  have e': "external_sources demo_collection demo_matrix
      = [(''ext_jira'', ''PROJ:42'', [''REQ-1''])]"
    using e [of "''top''"] by (simp add: demo_matrix_def)
  have "\<not> isl (perform_replacement demo_app demo_collection (demo_matrix\<lparr>group := []\<rparr>) [])"
    by code_simp
  then obtain o1 where o1:
    "perform_replacement demo_app demo_collection (demo_matrix\<lparr>group := []\<rparr>) [] = Inr o1"
    by (cases "perform_replacement demo_app demo_collection (demo_matrix\<lparr>group := []\<rparr>) []")
      auto
  have "\<not> isl (perform_replacement demo_app demo_collection demo_matrix [])"
    by code_simp
  then obtain o2 where o2: "perform_replacement demo_app demo_collection demo_matrix [] = Inr o2"
    by (cases "perform_replacement demo_app demo_collection demo_matrix []") auto
  have "\<not> isl (perform_replacement demo_app demo_collection (demo_matrix\<lparr>group := ''bottom''\<rparr>) [])"
    by code_simp
  then obtain o3 where o3:
    "perform_replacement demo_app demo_collection (demo_matrix\<lparr>group := ''bottom''\<rparr>) []
       = Inr o3"
    by (cases "perform_replacement demo_app demo_collection
        (demo_matrix\<lparr>group := ''bottom''\<rparr>) []") auto
  have g: "group demo_matrix = ''top''" "source demo_matrix = ''REQ''"
    by (simp_all add: demo_matrix_def)
  have s1: "source_ids_of demo_collection (demo_matrix\<lparr>group := g\<rparr>) = [''REQ-1'', ''REQ-2'']"
    for g by (rule s) (simp add: demo_matrix_def)
  have s2: "source_ids_of demo_collection demo_matrix = [''REQ-1'', ''REQ-2'']"
    by (rule s) (simp add: demo_matrix_def)
  from row_grouping [OF o1] have p1: "\<exists>src ext.
      list_all2 (is_source_row demo_app demo_collection (demo_matrix\<lparr>group := []\<rparr>))
          [''REQ-1'', ''REQ-2''] src
      \<and> list_all2 (is_external_row demo_app (demo_matrix\<lparr>group := []\<rparr>))
          [(''ext_jira'', ''PROJ:42'', [''REQ-1''])] ext
      \<and> emitted_rows o1 = map fst (src @ ext)
      \<and> mset (emitted_rows o1) = mset (map fst (src @ ext))"
    unfolding s1 e by simp
  from row_grouping [OF o2] have p2: "\<exists>src ext.
      list_all2 (is_source_row demo_app demo_collection demo_matrix) [''REQ-1'', ''REQ-2''] src
      \<and> list_all2 (is_external_row demo_app demo_matrix)
          [(''ext_jira'', ''PROJ:42'', [''REQ-1''])] ext
      \<and> emitted_rows o2
          = map fst (filter (\<lambda>b. \<not> snd b) (src @ ext)) @ map fst (filter snd (src @ ext))
      \<and> mset (emitted_rows o2) = mset (map fst (src @ ext))"
    unfolding s2 e' by (simp add: g)
  from row_grouping [OF o3] have p3: "\<exists>src ext.
      list_all2 (is_source_row demo_app demo_collection (demo_matrix\<lparr>group := ''bottom''\<rparr>))
          [''REQ-1'', ''REQ-2''] src
      \<and> list_all2 (is_external_row demo_app (demo_matrix\<lparr>group := ''bottom''\<rparr>))
          [(''ext_jira'', ''PROJ:42'', [''REQ-1''])] ext
      \<and> emitted_rows o3
          = map fst (filter snd (src @ ext)) @ map fst (filter (\<lambda>b. \<not> snd b) (src @ ext))
      \<and> mset (emitted_rows o3) = mset (map fst (src @ ext))"
    unfolding s1 e by simp
  show ?thesis
    using p1 p2 p3 o1 o2 o3 by blast
qed

lemma source_matrix_rows:
  "list_all2 (is_source_row ap coll self) sids src \<Longrightarrow>
     list_all (is_matrix_row self) (map fst src)"
  by (induction sids src rule: list_all2_induct) (auto simp: is_source_row_def)

lemma external_matrix_rows:
  "list_all2 (is_external_row ap self) srcs ext \<Longrightarrow>
     list_all (is_matrix_row self) (map fst ext)"
  by (induction srcs ext rule: list_all2_induct) (auto simp: is_external_row_def)

lemma is_matrix_rows:
  assumes "list_all2 (is_source_row ap coll self) sids src"
    and "list_all2 (is_external_row ap self) srcs ext"
  shows "list_all (is_matrix_row self) (map fst (filter P (src @ ext)))"
  using source_matrix_rows [OF assms(1)] external_matrix_rows [OF assms(2)]
  by (auto simp: list_all_iff)

text \<open>
  C3. In a run that returns, the table has one column group with
  \<open>max(2, len(target) + 1)\<close> column specifications, then one heading row with an entry for
  the source title and one for each target title, then the body; every row of the body
  is a row of that many entries, the source entry first. With no \<open>target\<close> regex or a
  single one the table has two columns.
\<close>

theorem table_columns:
  assumes "perform_replacement ap coll self wlog = Inr out"
  shows "emitted_table out =
       Element Table [] (if classes self \<noteq> [] then [(''classes'', AStrs (classes self))] else [])
         [Element TGroup [] []
            (replicate (number_of_columns self) (Element ColSpec [] [(''colwidth'', ANum 5)] [])
             @ [Element THead [] []
                  [Element Row [] []
                     (map (\<lambda>ttl. Element Entry [] [] [text_element Paragraph [] ttl []])
                        (sourcetitle self # targettitle self))],
                Element TBody [] [] (emitted_rows out)])]
     \<and> list_all (is_matrix_row self) (emitted_rows out)
     \<and> number_of_columns self = max 2 (length (target self) + 1)
     \<and> (length (target self) \<le> 1 \<longrightarrow> number_of_columns self = 2)"
proof -
  from emitted_rows_eq [OF assms] obtain rs where
    t: "emitted_table out = table_node self (table_body self rs)"
    and r: "emitted_rows out =
         (if group self = [] then rows_sorted rs
          else if group self = ''top'' then rows_uncovered rs @ rows_covered rs
          else if group self = ''bottom'' then rows_covered rs @ rows_uncovered rs
          else [])"
    by blast
  have tb: "table_body self rs = Element TBody [] [] (emitted_rows out)"
    unfolding r by (rule table_body_eq)
  from perform_replacement_built [OF assms] obtain src ext where
    s: "list_all2 (is_source_row ap coll self) (source_ids_of coll self) src"
    and e: "list_all2 (is_external_row ap self) (external_sources coll self) ext"
    and b: "emitted_rows out =
         (if group self = [] then map fst (src @ ext)
          else if group self = ''top'' then
            map fst (filter (\<lambda>b. \<not> snd b) (src @ ext)) @ map fst (filter snd (src @ ext))
          else if group self = ''bottom'' then
            map fst (filter snd (src @ ext)) @ map fst (filter (\<lambda>b. \<not> snd b) (src @ ext))
          else [])"
    by blast
  have all: "list_all (is_matrix_row self) (map fst (filter P (src @ ext)))" for P
    by (rule is_matrix_rows [OF s e])
  have "list_all (is_matrix_row self) (map fst (src @ ext))"
    using all [of "\<lambda>b. True"] by simp
  then have rows: "list_all (is_matrix_row self) (emitted_rows out)"
    unfolding b using all [of snd] all [of "\<lambda>b. \<not> snd b"] by (simp del: map_append filter_append)
  show ?thesis
    using rows by (simp add: t tb table_node_eq number_of_columns_def)
qed

theorem table_columns_witness:
  "\<exists>out. perform_replacement demo_app demo_collection demo_matrix [] = Inr out
     \<and> emitted_table out =
         Element Table [] []
           [Element TGroup [] []
              [Element ColSpec [] [(''colwidth'', ANum 5)] [],
               Element ColSpec [] [(''colwidth'', ANum 5)] [],
               Element THead [] []
                 [Element Row [] []
                    [Element Entry [] [] [Element Paragraph [] [] [Text ''Source'']],
                     Element Entry [] [] [Element Paragraph [] [] [Text ''Target'']]]],
               Element TBody [] [] (emitted_rows out)]]
     \<and> list_all (is_matrix_row demo_matrix) (emitted_rows out)
     \<and> number_of_columns demo_matrix = 2"
proof -
  have "\<not> isl (perform_replacement demo_app demo_collection demo_matrix [])"
    by code_simp
  then obtain out where
    out: "perform_replacement demo_app demo_collection demo_matrix [] = Inr out"
    by (cases "perform_replacement demo_app demo_collection demo_matrix []") auto
  have n: "number_of_columns demo_matrix = 2"
    by (simp add: number_of_columns_def demo_matrix_def)
  have "emitted_table out =
         Element Table [] []
           [Element TGroup [] []
              [Element ColSpec [] [(''colwidth'', ANum 5)] [],
               Element ColSpec [] [(''colwidth'', ANum 5)] [],
               Element THead [] []
                 [Element Row [] []
                    [Element Entry [] [] [Element Paragraph [] [] [Text ''Source'']],
                     Element Entry [] [] [Element Paragraph [] [] [Text ''Target'']]]],
               Element TBody [] [] (emitted_rows out)]]
     \<and> list_all (is_matrix_row demo_matrix) (emitted_rows out)"
    using table_columns [OF out] unfolding n
    by (simp add: demo_matrix_def text_element_def numeral_2_eq_2)
  then show ?thesis
    using out n by blast
qed

text \<open>
  C4. The statistics line names the number of covered rows, the number of rows and the
  floor of the percentage, which is 0 when there is no row: the division by zero is
  caught and the line is always computed. In a run that returns, the paragraph with the
  line stands between the admonition and the table when the \<open>stats\<close> flag is set, and is
  absent otherwise.
\<close>

theorem statistics_line:
  "statistics rs =
     Inr (''Statistics: '' @ str_nat (length (rows_covered rs)) @ '' out of ''
            @ str_nat (length (rows_sorted rs)) @ '' covered: ''
            @ str_int (if length (rows_sorted rs) = 0 then 0
                       else \<lfloor>100 * real (length (rows_covered rs)) / real (length (rows_sorted rs))\<rfloor>)
            @ ''%'')
   \<and> percentage c 0 = Inr 0
   \<and> (perform_replacement ap coll self wlog = Inr out \<longrightarrow>
        (\<exists>rows disp.
           build_rows ap coll self wlog = Inr (rows, warnings out)
           \<and> statistics rows = Inr disp
           \<and> replaced_by out =
               [Element Container [] []
                  ([admonition_node (title self)]
                   @ (if stats self then [Element Paragraph [] [] [Text disp]] else [])
                   @ [emitted_table out])]
           \<and> tagname (emitted_table out) = Table))"
proof -
  have f: "\<lfloor>100 * real c' / real t\<rfloor> = (100 * int c') div int t" for c' t
  proof -
    have "\<lfloor>real_of_int (100 * int c') / real_of_int (int t)\<rfloor> = (100 * int c') div int t"
      by (rule floor_divide_of_int_eq)
    then show ?thesis by simp
  qed
  have 1: "statistics rs =
     Inr (''Statistics: '' @ str_nat (length (rows_covered rs)) @ '' out of ''
            @ str_nat (length (rows_sorted rs)) @ '' covered: ''
            @ str_int (if length (rows_sorted rs) = 0 then 0
                       else \<lfloor>100 * real (length (rows_covered rs)) / real (length (rows_sorted rs))\<rfloor>)
            @ ''%'')"
    unfolding f by (rule statistics_eq)
  have 2: "percentage c 0 = Inr 0"
    by (simp add: percentage_eq)
  have 3: "\<exists>rows disp.
           build_rows ap coll self wlog = Inr (rows, warnings out)
           \<and> statistics rows = Inr disp
           \<and> replaced_by out =
               [Element Container [] []
                  ([admonition_node (title self)]
                   @ (if stats self then [Element Paragraph [] [] [Text disp]] else [])
                   @ [emitted_table out])]
           \<and> tagname (emitted_table out) = Table"
    if p: "perform_replacement ap coll self wlog = Inr out"
  proof -
    from perform_replacement_rows [OF p] obtain rows disp where
      b: "build_rows ap coll self wlog = Inr (rows, warnings out)"
      and d: "statistics rows = Inr disp"
      and r: "replaced_by out =
         [Element Container [] []
            ([admonition_node (title self)]
             @ (if stats self then [Element Paragraph [] [] [Text disp]] else [])
             @ [table_node self (table_body self rows)])]"
      by blast
    have t: "emitted_table out = table_node self (table_body self rows)"
      by (simp add: emitted_table_def r)
    have "tagname (emitted_table out) = Table"
      unfolding t by (simp add: table_node_eq)
    then show ?thesis using b d r unfolding t [symmetric] by blast
  qed
  show ?thesis using 1 2 3 by blast
qed

theorem statistics_line_witness:
  "(\<exists>out rows. perform_replacement demo_app demo_collection demo_matrix [] = Inr out
      \<and> build_rows demo_app demo_collection demo_matrix [] = Inr (rows, warnings out)
      \<and> statistics rows = Inr ''Statistics: 1 out of 3 covered: 33%''
      \<and> replaced_by out =
          [Element Container [] []
             [admonition_node ''Traceability matrix of items'',
              Element Paragraph [] [] [Text ''Statistics: 1 out of 3 covered: 33%''],
              emitted_table out]])
   \<and> (\<exists>out. perform_replacement demo_app demo_collection (demo_matrix\<lparr>stats := False\<rparr>) []
        = Inr out
      \<and> replaced_by out =
          [Element Container [] []
             [admonition_node ''Traceability matrix of items'', emitted_table out]])"
proof -
  let ?m = "demo_matrix\<lparr>stats := False\<rparr>"
  have "\<not> isl (perform_replacement demo_app demo_collection demo_matrix [])"
    by code_simp
  then obtain o1 where o1: "perform_replacement demo_app demo_collection demo_matrix [] = Inr o1"
    by (cases "perform_replacement demo_app demo_collection demo_matrix []") auto
  have "\<not> isl (perform_replacement demo_app demo_collection ?m [])"
    by code_simp
  then obtain o2 where o2: "perform_replacement demo_app demo_collection ?m [] = Inr o2"
    by (cases "perform_replacement demo_app demo_collection ?m []") auto
  have line: "map_sum id (\<lambda>r. statistics (fst r)) (build_rows demo_app demo_collection demo_matrix [])
      = Inr (Inr ''Statistics: 1 out of 3 covered: 33%'')"
    by code_simp
  from statistics_line [where ap = demo_app and coll = demo_collection and self = demo_matrix
      and wlog = "[]" and out = o1] o1
  obtain rows disp where
    b: "build_rows demo_app demo_collection demo_matrix [] = Inr (rows, warnings o1)"
    and d: "statistics rows = Inr disp"
    and r: "replaced_by o1 =
               [Element Container [] []
                  ([admonition_node (title demo_matrix)]
                   @ (if stats demo_matrix then [Element Paragraph [] [] [Text disp]] else [])
                   @ [emitted_table o1])]"
    by blast
  have disp: "disp = ''Statistics: 1 out of 3 covered: 33%''"
    using line b d by simp
  have p1: "\<exists>out rows. perform_replacement demo_app demo_collection demo_matrix [] = Inr out
      \<and> build_rows demo_app demo_collection demo_matrix [] = Inr (rows, warnings out)
      \<and> statistics rows = Inr ''Statistics: 1 out of 3 covered: 33%''
      \<and> replaced_by out =
          [Element Container [] []
             [admonition_node ''Traceability matrix of items'',
              Element Paragraph [] [] [Text ''Statistics: 1 out of 3 covered: 33%''],
              emitted_table out]]"
    using o1 b d r unfolding disp by (intro exI [of _ o1] exI [of _ rows]) (simp add: demo_matrix_def)
  from statistics_line [where ap = demo_app and coll = demo_collection and self = ?m
      and wlog = "[]" and out = o2] o2
  obtain disp' where
    "replaced_by o2 =
               [Element Container [] []
                  ([admonition_node (title ?m)]
                   @ (if stats ?m then [Element Paragraph [] [] [Text disp']] else [])
                   @ [emitted_table o2])]"
    by blast
  then have p2: "\<exists>out. perform_replacement demo_app demo_collection ?m [] = Inr out
      \<and> replaced_by out =
          [Element Container [] []
             [admonition_node ''Traceability matrix of items'', emitted_table out]]"
    using o2 by (intro exI [of _ o2]) (simp add: demo_matrix_def)
  show ?thesis
    using p1 p2 by blast
qed

subsection \<open>Runs that return\<close>

text \<open>
  In the model the queries of the collection and the regex functions always return, so a
  run raises only where a reference cannot be built or the source item is unknown.
\<close>

lemma add_external_refs_total:
  "\<exists>st'. add_external_refs ap (Some it) rel st = Inr st'"
proof -
  have "\<exists>s'. for_each
      (\<lambda>target_id (rights, covered, wlog).
         Inr (map (\<lambda>right. iadd right (make_external_item_ref ap target_id rel)) rights,
              True, wlog) :: error + row_state)
      (targets it rel) st = Inr s' \<and> True"
    by (rule for_each_total [where P = "\<lambda>s. True"]) (auto simp: split_paired_all)
  then show ?thesis by (simp add: add_external_refs_def)
qed

lemma external_loop_total:
  assumes "ext_rels = [] \<or> source_item \<noteq> None" and "row_shape n st"
  shows "\<exists>st'. for_each (add_external_refs ap source_item) ext_rels st = Inr st' \<and> row_shape n st'"
proof (rule for_each_total [where P = "row_shape n", OF assms(2)])
  fix x t
  assume x: "x \<in> set ext_rels" and t: "row_shape n t"
  from x assms(1) obtain it where it: "source_item = Some it" by auto
  from add_external_refs_total [of ap it x t] obtain t' where
    t': "add_external_refs ap source_item x t = Inr t'"
    unfolding it by blast
  then show "\<exists>t'. add_external_refs ap source_item x t = Inr t' \<and> row_shape n t'"
    using add_external_refs_step [OF t', of n] t by blast
qed

lemma add_internal_ref_total:
  assumes "row_shape n st" and "idx < n" and "can_reference ap target_id"
  shows "\<exists>st'. add_internal_ref ap self idx target_id st = Inr st' \<and> row_shape n st'"
proof -
  obtain rights covered w where st: "st = (rights, covered, w)" by (cases st)
  from assms(3) make_internal_item_ref_ok [of ap self w target_id True]
  obtain ref w' where "make_internal_item_ref ap self w target_id True = Inr (ref, w')"
    by auto
  then have "\<exists>st'. add_internal_ref ap self idx target_id st = Inr st'"
    using assms(1,2) by (auto simp: add_internal_ref_def st row_shape_def)
  then show ?thesis
    using add_internal_ref_step [of ap self idx target_id st _ n] assms(1) by blast
qed

lemma guarded_refs_total:
  assumes "row_shape n st" and "idx < n" and "list_all (can_reference ap) ids"
  shows "\<exists>st'. for_each (\<lambda>target_id st. if g target_id
                   then add_internal_ref ap self idx target_id st else Inr st) ids st = Inr st'
           \<and> row_shape n st'"
proof (rule for_each_total [where P = "row_shape n", OF assms(1)])
  fix x t
  assume "x \<in> set ids" and "row_shape n t"
  then have "\<exists>t'. add_internal_ref ap self idx x t = Inr t' \<and> row_shape n t'"
      and "row_shape n t"
    using add_internal_ref_total [of n t idx ap x self] assms(2,3)
    by (simp_all add: list_all_iff)
  then show "\<exists>t'. (if g x then add_internal_ref ap self idx x t else Inr t) = Inr t'
      \<and> row_shape n t'"
    by (cases "g x") simp_all
qed

lemma in_set_enumerate:
  "(i, x) \<in> set (enumerate 0 xs) \<Longrightarrow> i < length xs \<and> x \<in> set xs"
  by (auto simp: in_set_enumerate_eq)

lemma target_index_bound: "length (target self) \<le> number_of_columns self - 1"
  by (simp add: number_of_columns_def)

lemma source_row_total:
  assumes "can_reference ap sid"
    and "ext_rels = [] \<or> get_item coll (Some sid) \<noteq> None"
    and "list_all (list_all (can_reference ap)) twi"
    and "length twi \<le> number_of_columns self - 1"
  shows "\<exists>r. source_row ap coll self rels ext_rels twi sid (rs, w) = Inr r"
proof -
  let ?n = "number_of_columns self - 1"
  from assms(1) make_internal_item_ref_ok [of ap self w sid True]
  obtain ref w1 where ref: "make_internal_item_ref ap self w sid True = Inr (ref, w1)"
    by auto
  from external_loop_total [OF assms(2) row_shape_empty_entries, of ap self False w1]
  obtain st where st: "for_each (add_external_refs ap (get_item coll (Some sid))) ext_rels
        (empty_entries self, False, w1) = Inr st" "row_shape ?n st"
    by blast
  have "\<exists>st'. for_each (add_related_targets ap coll self sid rels) (enumerate 0 twi) st = Inr st'
      \<and> row_shape ?n st'"
  proof (rule for_each_total [where P = "row_shape ?n", OF st(2)])
    fix x t
    assume x: "x \<in> set (enumerate 0 twi)" and t: "row_shape ?n t"
    obtain idx tids where p: "x = (idx, tids)" by (cases x)
    from x p in_set_enumerate [of idx tids twi] have "idx < length twi" "tids \<in> set twi"
      by simp_all
    then have "idx < ?n" "list_all (can_reference ap) tids"
      using assms(3,4) by (auto simp: list_all_iff)
    from guarded_refs_total [OF t this]
    show "\<exists>t'. add_related_targets ap coll self sid rels x t = Inr t' \<and> row_shape ?n t'"
      by (simp add: add_related_targets_def p)
  qed
  then obtain st' where
    "for_each (add_related_targets ap coll self sid rels) (enumerate 0 twi) st = Inr st'"
    by blast
  then show ?thesis
    using ref st(1) by (simp add: source_row_def Let_def split: prod.splits)
qed

lemma external_row_total:
  assumes "list_all (can_reference ap) item_ids"
  shows "\<exists>r. external_row ap self ext_rel (ext_source, item_ids) (rs, w) = Inr r"
proof -
  let ?n = "number_of_columns self - 1"
  have "\<exists>st'. for_each (add_matching_targets ap self item_ids) (enumerate 0 (target self))
      (empty_entries self, False, w) = Inr st' \<and> row_shape ?n st'"
  proof (rule for_each_total [where P = "row_shape ?n", OF row_shape_empty_entries])
    fix x t
    assume x: "x \<in> set (enumerate 0 (target self))" and t: "row_shape ?n t"
    obtain idx re where p: "x = (idx, re)" by (cases x)
    from x p in_set_enumerate [of idx re "target self"] have "idx < length (target self)"
      by simp
    then have "idx < ?n" using target_index_bound [of self] by simp
    from guarded_refs_total [OF t this assms]
    show "\<exists>t'. add_matching_targets ap self item_ids x t = Inr t' \<and> row_shape ?n t'"
      by (simp add: add_matching_targets_def p)
  qed
  then show ?thesis
    by (auto simp: external_row_def Let_def split: prod.splits)
qed

lemma source_item_known:
  "items coll sid \<noteq> None \<Longrightarrow> get_item coll (Some sid) \<noteq> None"
  by (simp add: get_item_def)

lemma build_rows_total:
  assumes "references_known ap coll self"
  shows "\<exists>r. build_rows ap coll self w = Inr r"
proof -
  obtain rels ext_rels where re: "relationships_of coll self = (rels, ext_rels)"
    by (cases "relationships_of coll self")
  let ?twi = "map (\<lambda>target_regex. get_items coll target_regex None) (target self)"
  have k: "can_reference ap i \<and> items coll i \<noteq> None" if "i \<in> set (referenced_ids coll self)" for i
    using assms that by (simp add: references_known_def list_all_iff)
  have twi: "list_all (list_all (can_reference ap)) ?twi"
    using k by (auto simp: list_all_iff referenced_ids_def)
  have "\<exists>s'. for_each (source_row ap coll self rels ext_rels ?twi) (source_ids_of coll self)
      (no_rows, w) = Inr s' \<and> True"
  proof (rule for_each_total [where P = "\<lambda>s. True"])
    fix x t
    assume "x \<in> set (source_ids_of coll self)"
    then have "can_reference ap x" "items coll x \<noteq> None"
      using k [of x] by (simp_all add: referenced_ids_def)
    from source_row_total [OF this(1) disjI2 [OF source_item_known [OF this(2)]] twi,
        of self rels ext_rels "fst t" "snd t"]
    show "\<exists>t'. source_row ap coll self rels ext_rels ?twi x t = Inr t' \<and> True"
      using target_index_bound [of self] by simp
  qed simp
  then obtain s1 where s1: "for_each (source_row ap coll self rels ext_rels ?twi)
      (source_ids_of coll self) (no_rows, w) = Inr s1"
    by blast
  have "\<exists>s'. for_each (\<lambda>(ext_rel, p). external_row ap self ext_rel p)
      (external_sources coll self) s1 = Inr s' \<and> True"
  proof (rule for_each_total [where P = "\<lambda>s. True"])
    fix x t
    assume x: "x \<in> set (external_sources coll self)"
    obtain ext_rel ext_source item_ids where p: "x = (ext_rel, ext_source, item_ids)"
      by (cases x)
    have "list_all (can_reference ap) item_ids"
      using k x p by (force simp: list_all_iff referenced_ids_def)
    from external_row_total [OF this, of self ext_rel ext_source "fst t" "snd t"]
    show "\<exists>t'. (case x of (ext_rel, p) \<Rightarrow> external_row ap self ext_rel p) t = Inr t' \<and> True"
      by (simp add: p)
  qed simp
  then obtain s2 where "for_each (\<lambda>(ext_rel, p). external_row ap self ext_rel p)
      (external_sources coll self) s1 = Inr s2"
    by blast
  then have "for_each (\<lambda>(ext_rel, ext_targets_to_item_ids).
                  for_each (external_row ap self ext_rel) ext_targets_to_item_ids)
               (ext_relations_to_target_map coll self ext_rels) s1 = Inr s2"
    by (simp add: for_each_nested external_sources_def re)
  then show ?thesis
    using s1 by (simp add: build_rows_def Let_def re source_ids_of_def no_rows_def)
qed

lemma perform_replacement_total:
  assumes "references_known ap coll self"
  shows "\<exists>out. perform_replacement ap coll self w = Inr out"
proof -
  from build_rows_total [OF assms, of w] obtain rs w' where
    "build_rows ap coll self w = Inr (rs, w')"
    by auto
  moreover obtain disp where "statistics rs = Inr disp"
    using statistics_eq [of rs] by blast
  ultimately show ?thesis
    unfolding perform_replacement_def by (simp add: create_top_node_None Let_def)
qed

lemma statistics_floor:
  "statistics rs =
     Inr (''Statistics: '' @ str_nat (length (rows_covered rs)) @ '' out of ''
            @ str_nat (length (rows_sorted rs)) @ '' covered: ''
            @ str_int (if length (rows_sorted rs) = 0 then 0
                       else \<lfloor>100 * real (length (rows_covered rs))
                               / real (length (rows_sorted rs))\<rfloor>)
            @ ''%'')"
proof -
  have "\<lfloor>100 * real c / real t\<rfloor> = (100 * int c) div int t" for c t
  proof -
    have "\<lfloor>real_of_int (100 * int c) / real_of_int (int t)\<rfloor> = (100 * int c) div int t"
      by (rule floor_divide_of_int_eq)
    then show ?thesis by simp
  qed
  then show ?thesis
    by (simp only: statistics_eq)
qed

text \<open>
  C7, for the runs that return. Such a run calls \<open>replace_self\<close> once, with a container
  whose children are the admonition with the title, then, when the \<open>stats\<close> flag is set,
  the paragraph with the statistics line of the rows built, then the table with these
  rows. A run in which a reference cannot be built raises before \<open>replace_self\<close>.
\<close>

theorem replacement_node:
  assumes "perform_replacement ap coll self wlog = Inr out"
  shows "\<exists>rs. build_rows ap coll self wlog = Inr (rs, warnings out)
     \<and> replaced_by out =
         [Element Container [] []
            ([Element Admonition [] [(''classes'', AStrs [''item''])]
                [Element Title [] [] [Text (title self)]]]
             @ (if stats self then
                  [Element Paragraph [] []
                     [Text (''Statistics: '' @ str_nat (length (rows_covered rs)) @ '' out of ''
                              @ str_nat (length (rows_sorted rs)) @ '' covered: ''
                              @ str_int (if length (rows_sorted rs) = 0 then 0
                                         else \<lfloor>100 * real (length (rows_covered rs))
                                                 / real (length (rows_sorted rs))\<rfloor>)
                              @ ''%'')]]
                else [])
             @ [Element Table []
                  (if classes self \<noteq> [] then [(''classes'', AStrs (classes self))] else [])
                  [Element TGroup [] []
                     (replicate (number_of_columns self)
                        (Element ColSpec [] [(''colwidth'', ANum 5)] [])
                      @ [Element THead [] []
                           [Element Row [] []
                              (map (\<lambda>ttl. Element Entry [] [] [text_element Paragraph [] ttl []])
                                 (sourcetitle self # targettitle self))],
                         Element TBody [] []
                           (if group self = [] then rows_sorted rs
                            else if group self = ''top'' then rows_uncovered rs @ rows_covered rs
                            else if group self = ''bottom'' then
                              rows_covered rs @ rows_uncovered rs
                            else [])])]])]
     \<and> length (replaced_by out) = 1"
proof -
  from perform_replacement_rows [OF assms] obtain rs disp where
    b: "build_rows ap coll self wlog = Inr (rs, warnings out)"
    and d: "statistics rs = Inr disp"
    and r: "replaced_by out =
         [Element Container [] []
            ([admonition_node (title self)]
             @ (if stats self then [Element Paragraph [] [] [Text disp]] else [])
             @ [table_node self (table_body self rs)])]"
    by blast
  have disp: "disp = ''Statistics: '' @ str_nat (length (rows_covered rs)) @ '' out of ''
      @ str_nat (length (rows_sorted rs)) @ '' covered: ''
      @ str_int (if length (rows_sorted rs) = 0 then 0
                 else \<lfloor>100 * real (length (rows_covered rs)) / real (length (rows_sorted rs))\<rfloor>)
      @ ''%''"
    using d unfolding statistics_floor by simp
  have "replaced_by out =
         [Element Container [] []
            ([Element Admonition [] [(''classes'', AStrs [''item''])]
                [Element Title [] [] [Text (title self)]]]
             @ (if stats self then [Element Paragraph [] [] [Text disp]] else [])
             @ [Element Table []
                  (if classes self \<noteq> [] then [(''classes'', AStrs (classes self))] else [])
                  [Element TGroup [] []
                     (replicate (number_of_columns self)
                        (Element ColSpec [] [(''colwidth'', ANum 5)] [])
                      @ [Element THead [] []
                           [Element Row [] []
                              (map (\<lambda>ttl. Element Entry [] [] [text_element Paragraph [] ttl []])
                                 (sourcetitle self # targettitle self))],
                         Element TBody [] []
                           (if group self = [] then rows_sorted rs
                            else if group self = ''top'' then rows_uncovered rs @ rows_covered rs
                            else if group self = ''bottom'' then
                              rows_covered rs @ rows_uncovered rs
                            else [])])]])]"
    unfolding r table_node_eq table_body_eq admonition_node_def ..
  then show ?thesis
    using b unfolding disp by (intro exI [of _ rs]) simp
qed

theorem replacement_node_counterexample:
  "perform_replacement four_colour_app demo_collection demo_matrix [] = Inl KeyError"
  by code_simp


theorem replacement_node_witness:
  "\<exists>out rs. perform_replacement demo_app demo_collection demo_matrix [] = Inr out
     \<and> build_rows demo_app demo_collection demo_matrix [] = Inr (rs, warnings out)
     \<and> length (replaced_by out) = 1
     \<and> replaced_by out =
         [Element Container [] []
            [Element Admonition [] [(''classes'', AStrs [''item''])]
               [Element Title [] [] [Text ''Traceability matrix of items'']],
             Element Paragraph [] [] [Text ''Statistics: 1 out of 3 covered: 33%''],
             Element Table [] []
               [Element TGroup [] []
                  [Element ColSpec [] [(''colwidth'', ANum 5)] [],
                   Element ColSpec [] [(''colwidth'', ANum 5)] [],
                   Element THead [] []
                     [Element Row [] []
                        [Element Entry [] [] [Element Paragraph [] [] [Text ''Source'']],
                         Element Entry [] [] [Element Paragraph [] [] [Text ''Target'']]]],
                   Element TBody [] [] (rows_uncovered rs @ rows_covered rs)]]]]"
proof -
  have "\<not> isl (perform_replacement demo_app demo_collection demo_matrix [])"
    by code_simp
  then obtain out where
    out: "perform_replacement demo_app demo_collection demo_matrix [] = Inr out"
    by (cases "perform_replacement demo_app demo_collection demo_matrix []") auto
  have line: "map_sum id (\<lambda>r. statistics (fst r)) (build_rows demo_app demo_collection demo_matrix [])
      = Inr (Inr ''Statistics: 1 out of 3 covered: 33%'')"
    by code_simp
  from replacement_node [OF out] obtain rs where
    b: "build_rows demo_app demo_collection demo_matrix [] = Inr (rs, warnings out)"
    and r: "replaced_by out =
         [Element Container [] []
            ([Element Admonition [] [(''classes'', AStrs [''item''])]
                [Element Title [] [] [Text (title demo_matrix)]]]
             @ (if stats demo_matrix then
                  [Element Paragraph [] []
                     [Text (''Statistics: '' @ str_nat (length (rows_covered rs)) @ '' out of ''
                              @ str_nat (length (rows_sorted rs)) @ '' covered: ''
                              @ str_int (if length (rows_sorted rs) = 0 then 0
                                         else \<lfloor>100 * real (length (rows_covered rs))
                                                 / real (length (rows_sorted rs))\<rfloor>)
                              @ ''%'')]]
                else [])
             @ [Element Table []
                  (if classes demo_matrix \<noteq> [] then [(''classes'', AStrs (classes demo_matrix))]
                   else [])
                  [Element TGroup [] []
                     (replicate (number_of_columns demo_matrix)
                        (Element ColSpec [] [(''colwidth'', ANum 5)] [])
                      @ [Element THead [] []
                           [Element Row [] []
                              (map (\<lambda>ttl. Element Entry [] [] [text_element Paragraph [] ttl []])
                                 (sourcetitle demo_matrix # targettitle demo_matrix))],
                         Element TBody [] []
                           (if group demo_matrix = [] then rows_sorted rs
                            else if group demo_matrix = ''top'' then
                              rows_uncovered rs @ rows_covered rs
                            else if group demo_matrix = ''bottom'' then
                              rows_covered rs @ rows_uncovered rs
                            else [])])]])]"
    and l: "length (replaced_by out) = 1"
    by blast
  have "statistics rs = Inr ''Statistics: 1 out of 3 covered: 33%''"
    using line unfolding b by simp
  then have t: "''Statistics: '' @ str_nat (length (rows_covered rs)) @ '' out of ''
      @ str_nat (length (rows_sorted rs)) @ '' covered: ''
      @ str_int (if length (rows_sorted rs) = 0 then 0
                 else \<lfloor>100 * real (length (rows_covered rs)) / real (length (rows_sorted rs))\<rfloor>)
      @ ''%'' = ''Statistics: 1 out of 3 covered: 33%''"
    unfolding statistics_floor sum.inject .
  have n: "number_of_columns demo_matrix = Suc (Suc 0)"
    by (simp add: number_of_columns_def demo_matrix_def)
  have m: "title demo_matrix = ''Traceability matrix of items''" "stats demo_matrix"
    "classes demo_matrix = []" "group demo_matrix = ''top''"
    "sourcetitle demo_matrix = ''Source''" "targettitle demo_matrix = [''Target'']"
    by (simp_all add: demo_matrix_def)
  have "replaced_by out =
         [Element Container [] []
            [Element Admonition [] [(''classes'', AStrs [''item''])]
               [Element Title [] [] [Text ''Traceability matrix of items'']],
             Element Paragraph [] [] [Text ''Statistics: 1 out of 3 covered: 33%''],
             Element Table [] []
               [Element TGroup [] []
                  [Element ColSpec [] [(''colwidth'', ANum 5)] [],
                   Element ColSpec [] [(''colwidth'', ANum 5)] [],
                   Element THead [] []
                     [Element Row [] []
                        [Element Entry [] [] [Element Paragraph [] [] [Text ''Source'']],
                         Element Entry [] [] [Element Paragraph [] [] [Text ''Target'']]]],
                   Element TBody [] [] (rows_uncovered rs @ rows_covered rs)]]]]"
    using r unfolding t n by (simp add: m text_element_def)
  then show ?thesis
    using out b l by blast
qed

subsection \<open>The directive\<close>

text \<open>
  C6. \<open>run\<close> returns one node. It reports the warning about the numbers of targets and
  target titles exactly when there is more than one target and the numbers differ; the
  other warnings are those of \<open>check_relationships\<close>.
\<close>

theorem run_warning:
  "length (fst (run d wlog)) = 1
   \<and> target (hd (fst (run d wlog))) = processed_target d
   \<and> targettitle (hd (fst (run d wlog))) = processed_targettitle d
   \<and> snd (run d wlog) =
       wlog
       @ (if 1 < length (processed_target d)
             \<and> length (processed_target d) \<noteq> length (processed_targettitle d)
          then [\<lparr>message = mismatch_message d, w_docname = d_docname d, w_lineno = d_lineno d\<rparr>]
          else [])
       @ relationship_warnings d"
  by (simp add: run_def Let_def report_warning_def)

subsection \<open>External references\<close>

text \<open>
  C9. \<open>make_external_item_ref\<close> returns \<open>None\<close> exactly when the relationship has no URL;
  otherwise the paragraph holds a target node and a link whose URL is the result of
  replacing \<open>field1\<close>, \<open>field2\<close>, ... one after the other. With ten fields and the URL
  \<open>http://tool/field10\<close> the first replacement turns \<open>field1\<close> inside \<open>field10\<close> into the first
  field: the link is \<open>http://tool/a0\<close> and not the tenth field \<open>j\<close>.
\<close>

theorem external_ref_tenth_field:
  "(make_external_item_ref ap target_text relationship = None)
     = (traceability_external_relationship_to_url (config ap) relationship = None)
   \<and> make_external_item_ref ap target_text relationship =
       map_option
         (\<lambda>url. Element Paragraph [] []
            [Element Target [] [(''ids'', AStrs [make_id ap target_text])] [],
             Element Reference []
               [(''refuri'', AStr (replace_fields url 0 (str_split CHR '':'' target_text)))]
               [Text target_text]])
         (traceability_external_relationship_to_url (config ap) relationship)
   \<and> make_external_item_ref tool_app ''a:b:c:d:e:f:g:h:i:j'' ''ext_toolname'' =
       Some (Element Paragraph [] []
               [Element Target [] [(''ids'', AStrs [''a:b:c:d:e:f:g:h:i:j''])] [],
                Element Reference [] [(''refuri'', AStr ''http://tool/a0'')]
                  [Text ''a:b:c:d:e:f:g:h:i:j'']])
   \<and> str_split CHR '':'' ''a:b:c:d:e:f:g:h:i:j'' ! 9 = ''j''"
proof -
  have 1: "(make_external_item_ref ap target_text relationship = None)
     = (traceability_external_relationship_to_url (config ap) relationship = None)"
    by (simp add: make_external_item_ref_def Let_def split: option.splits)
  have 2: "make_external_item_ref tool_app ''a:b:c:d:e:f:g:h:i:j'' ''ext_toolname'' =
       Some (Element Paragraph [] []
               [Element Target [] [(''ids'', AStrs [''a:b:c:d:e:f:g:h:i:j''])] [],
                Element Reference [] [(''refuri'', AStr ''http://tool/a0'')]
                  [Text ''a:b:c:d:e:f:g:h:i:j'']])"
    by code_simp
  have 3: "str_split CHR '':'' ''a:b:c:d:e:f:g:h:i:j'' ! 9 = ''j''"
    by code_simp
  have 4: "make_external_item_ref ap target_text relationship =
       map_option
         (\<lambda>url. Element Paragraph [] []
            [Element Target [] [(''ids'', AStrs [make_id ap target_text])] [],
             Element Reference []
               [(''refuri'', AStr (replace_fields url 0 (str_split CHR '':'' target_text)))]
               [Text target_text]])
         (traceability_external_relationship_to_url (config ap) relationship)"
    by (simp add: make_external_item_ref_def Let_def text_element_def split: option.splits)
  show ?thesis using 1 2 3 4 by blast
qed

subsection \<open>References to undefined items\<close>

lemma link_to_attributes:
  "link_to ap self (Element Reference [] [] []) docname anchor =
     Element Reference []
       (case get_relative_uri ap (document self) docname of
          None \<Rightarrow> []
        | Some uri \<Rightarrow> [(''refuri'', AStr (uri @ ''#'' @ anchor)), (''refdocname'', AStr docname)])
       []"
  by (simp add: link_to_def split: option.splits)

lemma item_reference_shape:
  assumes "item_reference ap self it (Some n_id) (Some n) iid sc = Inr ref"
  shows "tagname ref = Reference
     \<and> map_of (attributes ref) ''refuri''
         = map_option (\<lambda>uri. AStr (uri @ ''#'' @ n_id))
             (get_relative_uri ap (document self) (item_docname n))
     \<and> map_of (attributes ref) ''refdocname''
         = map_option (\<lambda>uri. AStr (item_docname n))
             (get_relative_uri ap (document self) (item_docname n))"
  using assms
  by (auto simp: item_reference_def Let_def text_element_def link_to_attributes classes_of_def
      split: prod.splits option.splits if_splits)

lemma item_reference_KeyError:
  assumes "\<not> class_name_known ap iid"
  shows "item_reference ap self it (Some n_id) (Some n) iid sc = Inl KeyError"
  using assms
  by (auto simp: item_reference_def Let_def class_name_known_def
      split: prod.splits option.splits)

text \<open>
  C10, with the builder that finds no URI. For an id whose item is undefined: when no
  notification item is found, \<open>make_internal_item_ref\<close> reports the warning and returns a
  paragraph that holds only the text, without raising. When there is a notification item
  and the colours found for the id (if any) have a class name, it returns a paragraph
  with one reference; the reference has the URI of the notification item's document with
  the notification id as anchor, and its document name, when the builder gives a URI, and
  neither of them when the builder raises \<open>NoUri\<close>. When the colours have no class name
  it raises \<open>KeyError\<close>.
\<close>

theorem undefined_reference:
  assumes "items (traceability_collection ap) iid = Some it" and "placeholder it"
  shows "(notification_item_of ap = None \<longrightarrow>
        make_internal_item_ref ap self wlog iid sc =
          Inr (Element Paragraph [] [] [Text (iid @ '' not defined, broken link'')],
               wlog @ [\<lparr>message = ''Traceability: cannot link to '' @ [CHR 0x27] @ item_id it
                           @ [CHR 0x27] @ '', item is not defined'',
                         w_docname = document self, w_lineno = line self\<rparr>]))
     \<and> (\<forall>n. notification_item_of ap = Some n \<and> class_name_known ap iid \<longrightarrow>
          (\<exists>ref n_id.
             traceability_notifications (config ap) ''undefined-reference'' = Some n_id
             \<and> make_internal_item_ref ap self wlog iid sc = Inr (Element Paragraph [] [] [ref], wlog)
             \<and> tagname ref = Reference
             \<and> map_of (attributes ref) ''refuri''
                 = map_option (\<lambda>uri. AStr (uri @ ''#'' @ n_id))
                     (get_relative_uri ap (document self) (item_docname n))
             \<and> map_of (attributes ref) ''refdocname''
                 = map_option (\<lambda>uri. AStr (item_docname n))
                     (get_relative_uri ap (document self) (item_docname n))))
     \<and> (notification_item_of ap \<noteq> None \<and> \<not> class_name_known ap iid \<longrightarrow>
          make_internal_item_ref ap self wlog iid sc = Inl KeyError)"
proof -
  let ?cfg = "traceability_notifications (config ap) ''undefined-reference''"
  have g: "get_item (traceability_collection ap) (Some iid) = Some it"
    using assms(1) by (simp add: get_item_def)
  have 1: "make_internal_item_ref ap self wlog iid sc =
          Inr (Element Paragraph [] [] [Text (iid @ '' not defined, broken link'')],
               wlog @ [\<lparr>message = ''Traceability: cannot link to '' @ [CHR 0x27] @ item_id it
                           @ [CHR 0x27] @ '', item is not defined'',
                         w_docname = document self, w_lineno = line self\<rparr>])"
    if "notification_item_of ap = None"
    using that assms(2) g
    by (simp add: make_internal_item_ref_def notification_item_of_def Let_def text_element_def
        has_warned_about_undefined_def report_warning_def)
  have found: "\<exists>n_id. ?cfg = Some n_id
      \<and> make_internal_item_ref ap self wlog iid sc =
          (case item_reference ap self it (Some n_id) (Some n) iid sc of
             Inl e \<Rightarrow> Inl e
           | Inr newnode \<Rightarrow> Inr (Element Paragraph [] [] [newnode], wlog))"
    if n: "notification_item_of ap = Some n" for n
  proof -
    from n obtain n_id where c: "?cfg = Some n_id"
      by (cases ?cfg) (simp_all add: notification_item_of_def get_item_def)
    have "get_item (traceability_collection ap) (Some n_id) = Some n"
      using n c by (simp add: notification_item_of_def)
    then show ?thesis
      using c g assms(2)
      by (simp add: make_internal_item_ref_def Let_def text_element_def split: sum.splits)
  qed
  have 2: "\<exists>ref n_id. ?cfg = Some n_id
             \<and> make_internal_item_ref ap self wlog iid sc = Inr (Element Paragraph [] [] [ref], wlog)
             \<and> tagname ref = Reference
             \<and> map_of (attributes ref) ''refuri''
                 = map_option (\<lambda>uri. AStr (uri @ ''#'' @ n_id))
                     (get_relative_uri ap (document self) (item_docname n))
             \<and> map_of (attributes ref) ''refdocname''
                 = map_option (\<lambda>uri. AStr (item_docname n))
                     (get_relative_uri ap (document self) (item_docname n))"
    if n: "notification_item_of ap = Some n" and k: "class_name_known ap iid" for n
  proof -
    from found [OF n] obtain n_id where c: "?cfg = Some n_id"
      and m: "make_internal_item_ref ap self wlog iid sc =
          (case item_reference ap self it (Some n_id) (Some n) iid sc of
             Inl e \<Rightarrow> Inl e
           | Inr newnode \<Rightarrow> Inr (Element Paragraph [] [] [newnode], wlog))"
      by blast
    from k item_reference_ok [of "Some n" "Some n_id" ap self it iid sc]
    obtain ref where r: "item_reference ap self it (Some n_id) (Some n) iid sc = Inr ref"
      by auto
    show ?thesis
      using c m item_reference_shape [OF r] by (simp add: r)
  qed
  have 3: "make_internal_item_ref ap self wlog iid sc = Inl KeyError"
    if n: "notification_item_of ap \<noteq> None" and k: "\<not> class_name_known ap iid"
  proof -
    from n obtain n' where "notification_item_of ap = Some n'" by auto
    from found [OF this] show ?thesis
      using item_reference_KeyError [OF k] by auto
  qed
  show ?thesis using 1 2 3 by blast
qed

theorem undefined_reference_counterexample:
  "map_option placeholder (items (traceability_collection no_uri_app) ''GHOST'') = Some True
   \<and> map_option item_id (notification_item_of no_uri_app) = Some ''NOTE''
   \<and> make_internal_item_ref no_uri_app demo_matrix [] ''GHOST'' True =
       Inr (Element Paragraph [] []
              [Element Reference [] [] [Element Emphasis ''GHOST'' [] [Text ''GHOST'']]], [])"
  by code_simp

theorem undefined_reference_witness:
  "make_internal_item_ref demo_app demo_matrix [] ''GHOST'' True =
     Inr (Element Paragraph [] [] [Text ''GHOST not defined, broken link''],
          [\<lparr>message = ''Traceability: cannot link to '' @ [CHR 0x27] @ ''GHOST'' @ [CHR 0x27]
                        @ '', item is not defined'',
            w_docname = ''index'', w_lineno = 7\<rparr>])
   \<and> (\<exists>ref. make_internal_item_ref notifying_app demo_matrix [] ''GHOST'' True
               = Inr (Element Paragraph [] [] [ref], [])
        \<and> tagname ref = Reference
        \<and> map_of (attributes ref) ''refuri'' = Some (AStr ''notes.html#NOTE'')
        \<and> map_of (attributes ref) ''refdocname'' = Some (AStr ''notes''))
   \<and> (\<exists>ref. make_internal_item_ref no_uri_app demo_matrix [] ''GHOST'' True
               = Inr (Element Paragraph [] [] [ref], [])
        \<and> tagname ref = Reference
        \<and> map_of (attributes ref) ''refuri'' = None
        \<and> map_of (attributes ref) ''refdocname'' = None)
   \<and> make_internal_item_ref unstyled_app demo_matrix [] ''GHOST'' True = Inl KeyError"
proof -
  have ghost: "\<exists>it. items (traceability_collection a) ''GHOST'' = Some it \<and> placeholder it
      \<and> item_id it = ''GHOST''"
    if "traceability_collection a = demo_collection" for a
    using that by (simp add: demo_collection_def demo_items_def)
  have coll: "traceability_collection demo_app = demo_collection"
    "traceability_collection notifying_app = demo_collection"
    "traceability_collection no_uri_app = demo_collection"
    "traceability_collection unstyled_app = demo_collection"
    by (simp_all add: demo_app_def notifying_app_def no_uri_app_def unstyled_app_def)
  have none: "notification_item_of demo_app = None"
    by (simp add: notification_item_of_def demo_app_def demo_config_def get_item_def)
  have found: "\<exists>n. notification_item_of a = Some n \<and> item_docname n = ''notes''"
    and cfg: "traceability_notifications (config a) ''undefined-reference'' = Some ''NOTE''"
    if "traceability_collection a = demo_collection"
      and "traceability_notifications (config a) = [''undefined-reference'' \<mapsto> ''NOTE'']" for a
    using that
    by (simp_all add: notification_item_of_def get_item_def demo_collection_def demo_items_def)
  have ncfg: "traceability_notifications (config notifying_app) = [''undefined-reference'' \<mapsto> ''NOTE'']"
    "traceability_notifications (config no_uri_app) = [''undefined-reference'' \<mapsto> ''NOTE'']"
    "traceability_notifications (config unstyled_app) = [''undefined-reference'' \<mapsto> ''NOTE'']"
    by (simp_all add: notifying_app_def no_uri_app_def unstyled_app_def notifying_config_def
        demo_app_def)
  have known: "class_name_known notifying_app ''GHOST''" "class_name_known no_uri_app ''GHOST''"
    "\<not> class_name_known unstyled_app ''GHOST''"
    by code_simp+
  have uri: "get_relative_uri notifying_app d ''notes'' = Some ''notes.html''"
    "get_relative_uri no_uri_app d ''notes'' = None" for d
    by (simp_all add: notifying_app_def no_uri_app_def demo_app_def)
  from ghost [OF coll(1)] obtain g1 where g1:
    "items (traceability_collection demo_app) ''GHOST'' = Some g1" "placeholder g1"
    "item_id g1 = ''GHOST''"
    by blast
  have p1: "make_internal_item_ref demo_app demo_matrix [] ''GHOST'' True =
     Inr (Element Paragraph [] [] [Text ''GHOST not defined, broken link''],
          [\<lparr>message = ''Traceability: cannot link to '' @ [CHR 0x27] @ ''GHOST'' @ [CHR 0x27]
                        @ '', item is not defined'',
            w_docname = ''index'', w_lineno = 7\<rparr>])"
    using undefined_reference [OF g1(1,2), of demo_matrix "[]" True] none
    by (simp add: g1(3) demo_matrix_def)
  from ghost [OF coll(2)] obtain g2 where g2:
    "items (traceability_collection notifying_app) ''GHOST'' = Some g2" "placeholder g2"
    by blast
  from found [OF coll(2) ncfg(1)] obtain n2 where n2:
    "notification_item_of notifying_app = Some n2" "item_docname n2 = ''notes''"
    by blast
  have p2: "\<exists>ref. make_internal_item_ref notifying_app demo_matrix [] ''GHOST'' True
               = Inr (Element Paragraph [] [] [ref], [])
        \<and> tagname ref = Reference
        \<and> map_of (attributes ref) ''refuri'' = Some (AStr ''notes.html#NOTE'')
        \<and> map_of (attributes ref) ''refdocname'' = Some (AStr ''notes'')"
    using undefined_reference [OF g2, of demo_matrix "[]" True] n2 known(1)
    by (auto simp: cfg [OF coll(2) ncfg(1)] uri)
  from ghost [OF coll(3)] obtain g3 where g3:
    "items (traceability_collection no_uri_app) ''GHOST'' = Some g3" "placeholder g3"
    by blast
  from found [OF coll(3) ncfg(2)] obtain n3 where n3:
    "notification_item_of no_uri_app = Some n3" "item_docname n3 = ''notes''"
    by blast
  have p3: "\<exists>ref. make_internal_item_ref no_uri_app demo_matrix [] ''GHOST'' True
               = Inr (Element Paragraph [] [] [ref], [])
        \<and> tagname ref = Reference
        \<and> map_of (attributes ref) ''refuri'' = None
        \<and> map_of (attributes ref) ''refdocname'' = None"
    using undefined_reference [OF g3, of demo_matrix "[]" True] n3 known(2)
    by (auto simp: cfg [OF coll(3) ncfg(2)] uri)
  from ghost [OF coll(4)] obtain g4 where g4:
    "items (traceability_collection unstyled_app) ''GHOST'' = Some g4" "placeholder g4"
    by blast
  from found [OF coll(4) ncfg(3)] obtain n4 where n4:
    "notification_item_of unstyled_app = Some n4"
    by blast
  have p4: "make_internal_item_ref unstyled_app demo_matrix [] ''GHOST'' True = Inl KeyError"
    using undefined_reference [OF g4, of demo_matrix "[]" True] n4 known(3)
    by simp
  show ?thesis using p1 p2 p3 p4 by blast
qed

subsection \<open>External relationships\<close>














end
